theory Spec2Isabelle
  imports Complex_Main
begin

section \<open>JavaScript values and strings used by the coordinate utilities\<close>

text \<open>
  The values a coordinate component can hold. Viewport coordinates are integer pixel
  positions, so a finite Number is modelled by its integer value (\<open>Num\<close>); the three
  non-finite Numbers and \<open>undefined\<close> are kept as separate values, since
  \<open>isValidCoordinate\<close> and the array destructuring in \<open>keyToCoord\<close> distinguish them.
  Numbers with a fractional part and negative zero have no counterpart here, and \<open>Num n\<close>
  stands for a Number only for the integers \<open>n\<close> that a Number holds exactly (every
  integer of magnitude up to \<open>2^53\<close>). What this development proves about keys is
  therefore about integer pixel coordinates, not about every finite Number.
\<close>

datatype jsval = Num int | NaN | PosInfinity | NegInfinity | Undefined

text \<open>The strict equality \<open>===\<close> on these values: \<open>NaN\<close> is not equal to itself.\<close>

definition strict_eq :: "jsval \<Rightarrow> jsval \<Rightarrow> bool" where
  "strict_eq a b = (a = b \<and> a \<noteq> NaN)"

definition typeof_number :: "jsval \<Rightarrow> bool" where
  "typeof_number v = (v \<noteq> Undefined)"

text \<open>The global \<open>isNaN\<close> and \<open>isFinite\<close> convert their argument to a Number first.\<close>

definition js_isNaN :: "jsval \<Rightarrow> bool" where
  "js_isNaN v = (v = NaN \<or> v = Undefined)"

definition js_isFinite :: "jsval \<Rightarrow> bool" where
  "js_isFinite v = (case v of Num n \<Rightarrow> True | _ \<Rightarrow> False)"

definition digit_char :: "nat \<Rightarrow> char" where
  "digit_char d = char_of (48 + d)"

definition isDigit :: "char \<Rightarrow> bool" where
  "isDigit c = (48 \<le> (of_char c :: nat) \<and> (of_char c :: nat) \<le> 57)"

definition digit_val :: "char \<Rightarrow> nat" where
  "digit_val c = (of_char c :: nat) - 48"

function natToString :: "nat \<Rightarrow> string" where
  "natToString n =
     (if n < 10 then [digit_char n] else natToString (n div 10) @ [digit_char (n mod 10)])"
  by pat_completeness auto
termination
  by (relation "measure (\<lambda>n. n)") auto

declare natToString.simps [simp del]

text \<open>
  Number-to-string conversion, as the template literal in \<open>coordToKey\<close> applies it. For
  an integer value this is its decimal expansion with a leading minus sign when negative.
  That is what JavaScript prints for the integers described above; from \<open>10^21\<close> on it
  prints an exponent form (\<open>1e+21\<close>), which this function does not produce.
\<close>

fun toString :: "jsval \<Rightarrow> string" where
  "toString (Num n) = (if n < 0 then CHR ''-'' # natToString (nat (- n)) else natToString (nat n))"
| "toString NaN = ''NaN''"
| "toString PosInfinity = ''Infinity''"
| "toString NegInfinity = ''-Infinity''"
| "toString Undefined = ''undefined''"

definition parseNat :: "string \<Rightarrow> nat" where
  "parseNat s = foldl (\<lambda>acc c. 10 * acc + digit_val c) 0 s"

text \<open>
  \<open>Number(s)\<close> on the strings this program hands to it: the empty string, a decimal
  integer with an optional sign, the infinities, and the two non-numeric words that
  \<open>toString\<close> can produce. Every other string (fractions, exponents, radix prefixes,
  surrounding white space, other text) is outside this model and gives \<open>None\<close>.
\<close>

definition js_Number :: "string \<Rightarrow> jsval option" where
  "js_Number s =
     (if s = [] then Some (Num 0)
      else if s = ''Infinity'' \<or> s = ''+Infinity'' then Some PosInfinity
      else if s = ''-Infinity'' then Some NegInfinity
      else if s = ''NaN'' \<or> s = ''undefined'' then Some NaN
      else if list_all isDigit s then Some (Num (int (parseNat s)))
      else if (hd s = CHR ''-'' \<or> hd s = CHR ''+'') \<and> tl s \<noteq> [] \<and> list_all isDigit (tl s)
        then Some (Num (if hd s = CHR ''-'' then - int (parseNat (tl s)) else int (parseNat (tl s))))
      else None)"

text \<open>\<open>s.split(sep)\<close> for a one-character separator: always at least one piece.\<close>

fun js_split :: "char \<Rightarrow> string \<Rightarrow> string list" where
  "js_split sep [] = [[]]"
| "js_split sep (c # cs) =
     (if c = sep then [] # js_split sep cs
      else (case js_split sep cs of
              [] \<Rightarrow> [[c]]
            | w # ws \<Rightarrow> (c # w) # ws))"

text \<open>Array destructuring: a position past the end of the array yields \<open>undefined\<close>.\<close>

definition element_at :: "jsval option list \<Rightarrow> nat \<Rightarrow> jsval option" where
  "element_at xs i = (if i < length xs then xs ! i else Some Undefined)"

section \<open>Coordinate (models/Coordinate.js)\<close>

record coordinate =
  coord_x :: jsval
  coord_y :: jsval

definition coordToKey :: "coordinate \<Rightarrow> string" where
  "coordToKey coord = toString (coord_x coord) @ '','' @ toString (coord_y coord)"

text \<open>
  \<open>keyToCoord\<close> is \<open>None\<close> only when one of the two pieces it reads lies outside the
  modelled fragment of \<open>Number\<close>.
\<close>

definition keyToCoord :: "string \<Rightarrow> coordinate option" where
  "keyToCoord key =
     (let parts = map js_Number (js_split CHR '','' key) in
      case (element_at parts 0, element_at parts 1) of
        (Some vx, Some vy) \<Rightarrow> Some \<lparr>coord_x = vx, coord_y = vy\<rparr>
      | _ \<Rightarrow> None)"

definition coordEquals :: "coordinate \<Rightarrow> coordinate \<Rightarrow> bool" where
  "coordEquals coord1 coord2 =
     (strict_eq (coord_x coord1) (coord_x coord2) \<and> strict_eq (coord_y coord1) (coord_y coord2))"

text \<open>The argument is \<open>None\<close> for \<open>null\<close>, \<open>undefined\<close> and non-objects.\<close>

definition isValidCoordinate :: "coordinate option \<Rightarrow> bool" where
  "isValidCoordinate coord =
     (case coord of
        None \<Rightarrow> False
      | Some c \<Rightarrow>
          typeof_number (coord_x c) \<and> typeof_number (coord_y c) \<and>
          \<not> js_isNaN (coord_x c) \<and> \<not> js_isNaN (coord_y c) \<and>
          js_isFinite (coord_x c) \<and> js_isFinite (coord_y c))"

definition createCoordinate :: "jsval \<Rightarrow> jsval \<Rightarrow> coordinate" where
  "createCoordinate vx vy = \<lparr>coord_x = vx, coord_y = vy\<rparr>"

section \<open>HitRegionMap (models/HitRegionMap.js)\<close>

text \<open>
  Elements are values of an arbitrary type \<open>'e\<close>, compared by identity. A JavaScript
  \<open>Set\<close> keeps its members in insertion order, so a set of keys is a list without
  repetition; \<open>set_add\<close> is \<open>Set.prototype.add\<close>. The \<open>WeakMap\<close> and the \<open>Map\<close> are
  partial functions.
\<close>

definition set_add :: "'a \<Rightarrow> 'a list \<Rightarrow> 'a list" where
  "set_add k ks = (if k \<in> set ks then ks else ks @ [k])"

record 'e hit_region_map =
  elementToCoordinates :: "'e \<rightharpoonup> string list"
  coordinateToElement :: "string \<rightharpoonup> 'e"
  elements :: "'e list"
  maxCoordinatesPerElement :: int

text \<open>
  The constructor. \<open>options.maxCoordinatesPerElement || 10000\<close>: a missing option and the
  falsy number \<open>0\<close> both give the default.
\<close>

definition new_HitRegionMap :: "int option \<Rightarrow> 'e hit_region_map" where
  "new_HitRegionMap maxOption =
     \<lparr>elementToCoordinates = Map.empty,
      coordinateToElement = Map.empty,
      elements = [],
      maxCoordinatesPerElement =
        (case maxOption of None \<Rightarrow> 10000 | Some n \<Rightarrow> if n = 0 then 10000 else n)\<rparr>"

text \<open>Messages written to the console by the modules modelled here.\<close>

datatype console_msg =
    WarnCoordinateLimit int
  | WarnElementRemoved jsval jsval
  | ErrorSampling jsval jsval
  | ErrorTimeout
  | WarnSlowCalculation
  | LogCalculationComplete

text \<open>
  \<open>addCoordinate\<close> returns its result, the updated map and the console messages it
  wrote. \<open>None\<close> stands for a \<open>null\<close> or \<open>undefined\<close> argument.
\<close>

definition addCoordinate ::
  "'e hit_region_map \<Rightarrow> 'e option \<Rightarrow> coordinate option \<Rightarrow> bool \<times> 'e hit_region_map \<times> console_msg list"
where
  "addCoordinate m element coord =
     (case (element, coord) of
        (Some el, Some c) \<Rightarrow>
          (let (coordinates, m1) =
                 (case elementToCoordinates m el of
                    None \<Rightarrow>
                      ([], m\<lparr>elementToCoordinates := (elementToCoordinates m)(el \<mapsto> []),
                              elements := set_add el (elements m)\<rparr>)
                  | Some ks \<Rightarrow> (ks, m))
           in if int (length coordinates) \<ge> maxCoordinatesPerElement m1
              then (False, m1,
                    if int (length coordinates) = maxCoordinatesPerElement m1
                    then [WarnCoordinateLimit (maxCoordinatesPerElement m1)] else [])
              else (let key = coordToKey c
                    in (True,
                        m1\<lparr>elementToCoordinates :=
                              (elementToCoordinates m1)(el \<mapsto> set_add key coordinates),
                            coordinateToElement := (coordinateToElement m1)(key \<mapsto> el)\<rparr>,
                        [])))
      | _ \<Rightarrow> (False, m, []))"

text \<open>
  \<open>getCoordinates\<close> decodes each stored key with the same split-and-convert expression
  as \<open>keyToCoord\<close>.
\<close>

definition getCoordinates :: "'e hit_region_map \<Rightarrow> 'e option \<Rightarrow> coordinate option list" where
  "getCoordinates m element =
     (case element of
        None \<Rightarrow> []
      | Some el \<Rightarrow>
          (case elementToCoordinates m el of
             None \<Rightarrow> []
           | Some coordinateKeys \<Rightarrow> map keyToCoord coordinateKeys))"

definition getElement :: "'e hit_region_map \<Rightarrow> coordinate option \<Rightarrow> 'e option" where
  "getElement m coord =
     (case coord of
        None \<Rightarrow> None
      | Some c \<Rightarrow> coordinateToElement m (coordToKey c))"

definition hasElement :: "'e hit_region_map \<Rightarrow> 'e \<Rightarrow> bool" where
  "hasElement m el = (elementToCoordinates m el \<noteq> None)"

definition getCoordinateCount :: "'e hit_region_map \<Rightarrow> 'e \<Rightarrow> nat" where
  "getCoordinateCount m el =
     (case elementToCoordinates m el of None \<Rightarrow> 0 | Some coordinates \<Rightarrow> length coordinates)"

definition getElements :: "'e hit_region_map \<Rightarrow> 'e list" where
  "getElements m = elements m"

definition clear :: "'e hit_region_map \<Rightarrow> 'e hit_region_map" where
  "clear m = m\<lparr>coordinateToElement := Map.empty, elements := [], elementToCoordinates := Map.empty\<rparr>"

section \<open>The host document\<close>

text \<open>
  What the modules read from the browser, for nodes of an arbitrary type \<open>'n\<close>:
  \<open>isElement n\<close> is \<open>n instanceof Element\<close>; \<open>computedPointerEvents n\<close> is
  \<open>window.getComputedStyle(n).pointerEvents\<close>; \<open>ancestorElements n\<close> lists
  \<open>n.parentElement\<close>, its \<open>parentElement\<close>, and so on until \<open>null\<close>, nearest first (a
  document tree is finite, so the list is); \<open>documentNode\<close> is \<open>document\<close> itself; \<open>contains\<close>
  is \<open>document.contains\<close>; \<open>elementFromPoint\<close> either throws or returns a node or \<open>null\<close>.
\<close>

datatype 'n point_result = Thrown | Returned "'n option"

record 'n document =
  isElement :: "'n \<Rightarrow> bool"
  tagName :: "'n \<Rightarrow> string"
  getAttribute :: "'n \<Rightarrow> string \<Rightarrow> string option"
  computedPointerEvents :: "'n \<Rightarrow> string"
  ancestorElements :: "'n \<Rightarrow> 'n list"
  documentElement :: 'n
  documentNode :: 'n
  contains :: "'n \<Rightarrow> bool"
  elementFromPoint :: "jsval \<Rightarrow> jsval \<Rightarrow> 'n point_result"

definition hasAttribute :: "'n document \<Rightarrow> 'n \<Rightarrow> string \<Rightarrow> bool" where
  "hasAttribute d el name = (getAttribute d el name \<noteq> None)"

text \<open>
  \<open>toLowerCase\<close> on the letters \<open>A\<close> to \<open>Z\<close>. Other characters are left as they are; no
  character outside this range lower-cases to a letter of the four tag names tested below.
\<close>

definition toLowerCase :: "string \<Rightarrow> string" where
  "toLowerCase s =
     map (\<lambda>c. if 65 \<le> (of_char c :: nat) \<and> (of_char c :: nat) \<le> 90
              then char_of ((of_char c :: nat) + 32) else c) s"

text \<open>\<open>a || b\<close> on a string or \<open>null\<close>: \<open>null\<close> and the empty string are falsy.\<close>

definition string_or :: "string option \<Rightarrow> string option \<Rightarrow> string option" where
  "string_or a b = (case a of None \<Rightarrow> b | Some s \<Rightarrow> if s = [] then b else Some s)"

section \<open>InteractiveElementFinder.js\<close>

definition getImplicitRole :: "'n document \<Rightarrow> 'n \<Rightarrow> string option" where
  "getImplicitRole d element =
     (let tag = toLowerCase (tagName d element) in
      if tag = ''button'' then Some ''button''
      else if tag = ''input'' \<and>
              (let type = getAttribute d element ''type'' in
               type = Some ''button'' \<or> type = Some ''submit'' \<or>
               type = Some ''reset'' \<or> type = Some ''image'')
        then Some ''button''
      else if tag = ''a'' \<and> hasAttribute d element ''href'' then Some ''link''
      else if tag = ''area'' \<and> hasAttribute d element ''href'' then Some ''link''
      else None)"

definition isInteractive :: "'n document \<Rightarrow> 'n option \<Rightarrow> bool" where
  "isInteractive d element =
     (case element of
        None \<Rightarrow> False
      | Some el \<Rightarrow>
          if \<not> isElement d el then False
          else (let explicitRole = getAttribute d el ''role'';
                    implicitRole = getImplicitRole d el;
                    role = string_or explicitRole implicitRole
                in if role \<noteq> Some ''button'' \<and> role \<noteq> Some ''link'' then False
                   else if computedPointerEvents d el = ''none'' then False
                   else True))"

text \<open>
  The loop of \<open>findInteractiveAncestor\<close>: the list holds \<open>current\<close> followed by the nodes
  that repeated \<open>current.parentElement\<close> will visit; the empty list is \<open>current = null\<close>.
\<close>

fun ancestor_loop :: "'n document \<Rightarrow> 'n list \<Rightarrow> 'n option" where
  "ancestor_loop d [] = None"
| "ancestor_loop d (current # rest) =
     (if current = documentElement d \<or> current = documentNode d then None
      else if isInteractive d (Some current) then Some current
      else ancestor_loop d rest)"

definition findInteractiveAncestor :: "'n document \<Rightarrow> 'n option \<Rightarrow> 'n option" where
  "findInteractiveAncestor d element =
     (case element of
        None \<Rightarrow> None
      | Some el \<Rightarrow>
          if \<not> isElement d el then None
          else ancestor_loop d (el # ancestorElements d el))"

text \<open>
  The two readings that the claims about the classifier and the ancestor search are
  compared with. \<open>claimed_effective_role\<close>: the explicit role attribute if present,
  otherwise the implicit role. \<open>claimed_findInteractiveAncestor\<close>: the first interactive
  node of the chain that starts at the node itself and runs to the root.
\<close>

definition claimed_effective_role :: "'n document \<Rightarrow> 'n \<Rightarrow> string option" where
  "claimed_effective_role d el =
     (case getAttribute d el ''role'' of Some r \<Rightarrow> Some r | None \<Rightarrow> getImplicitRole d el)"

definition claimed_isInteractive :: "'n document \<Rightarrow> 'n option \<Rightarrow> bool" where
  "claimed_isInteractive d element =
     (case element of
        None \<Rightarrow> False
      | Some el \<Rightarrow>
          isElement d el \<and>
          (claimed_effective_role d el = Some ''button'' \<or>
           claimed_effective_role d el = Some ''link'') \<and>
          computedPointerEvents d el \<noteq> ''none'')"

definition claimed_findInteractiveAncestor :: "'n document \<Rightarrow> 'n \<Rightarrow> 'n option" where
  "claimed_findInteractiveAncestor d n =
     find (\<lambda>c. isInteractive d (Some c)) (n # ancestorElements d n)"

text \<open>
  A small page used for evaluation. Node 0 is the root element \<open>html\<close>, carrying
  \<open>role="button"\<close>; node 1 is \<open>body\<close>; node 2 is a link \<open>a href\<close> in the body; node 3 is a
  \<open>button\<close> inside the link; node 4 is a \<open>span\<close> inside the button; node 5 is a text node
  inside the button; node 6 is a \<open>button\<close> with an empty \<open>role\<close> attribute in the body; node
  7 is a \<open>div\<close> with \<open>role="button"\<close> and \<open>pointer-events: none\<close> in the body; node 8 is a
  \<open>p\<close> in the body; node 9 is a \<open>div\<close> that has been removed from the document and
  node 10 a \<open>span\<close> inside it; node 100 is the document. The hit test returns the \<open>span\<close>
  at the points with \<open>x\<close> in \<open>[0, 60)\<close> and \<open>y\<close> in \<open>[0, 40)\<close>, and the body everywhere else;
  it throws on arguments that are not finite numbers.
\<close>

definition page_attrs :: "nat \<Rightarrow> string \<Rightarrow> string option" where
  "page_attrs n name =
     (if n = 0 \<and> name = ''role'' then Some ''button''
      else if n = 2 \<and> name = ''href'' then Some ''#top''
      else if n = 6 \<and> name = ''role'' then Some ''''
      else if n = 7 \<and> name = ''role'' then Some ''button''
      else None)"

definition page_point :: "jsval \<Rightarrow> jsval \<Rightarrow> nat point_result" where
  "page_point vx vy =
     (case (vx, vy) of
        (Num a, Num b) \<Rightarrow>
          if 0 \<le> a \<and> a < 60 \<and> 0 \<le> b \<and> b < 40 then Returned (Some 4) else Returned (Some 1)
      | _ \<Rightarrow> Thrown)"

definition page :: "nat document" where
  "page =
     \<lparr>isElement = (\<lambda>n. n \<le> 10 \<and> n \<noteq> 5),
      tagName = (\<lambda>n. [''HTML'', ''BODY'', ''A'', ''BUTTON'', ''SPAN'', '''', ''BUTTON'', ''DIV'', ''P'',
                       ''DIV'', ''SPAN''] ! n),
      getAttribute = page_attrs,
      computedPointerEvents = (\<lambda>n. if n = 7 then ''none'' else ''auto''),
      ancestorElements =
        (\<lambda>n. [[], [0], [1, 0], [2, 1, 0], [3, 2, 1, 0], [3, 2, 1, 0], [1, 0], [1, 0], [1, 0],
              [], [9]] ! n),
      documentElement = 0,
      documentNode = 100,
      contains = (\<lambda>n. n \<le> 8 \<or> n = 100),
      elementFromPoint = page_point\<rparr>"

section \<open>HitRegionCalculator.js\<close>

text \<open>
  The two nested loops of \<open>generateCoordinateGrid\<close>. With a resolution that is not
  positive the loop variable never reaches the bound and the loop does not end, so both
  are partial functions and \<open>None\<close> is a loop that never returns. \<open>coordinates\<close> is the
  array built so far.
\<close>

partial_function (option) grid_y_loop ::
  "int \<Rightarrow> int \<Rightarrow> int \<Rightarrow> int \<Rightarrow> coordinate list \<Rightarrow> coordinate list option"
where
  "grid_y_loop height resolution vx vy coordinates =
     (if vy < height
      then grid_y_loop height resolution vx (vy + resolution)
             (coordinates @ [createCoordinate (Num vx) (Num vy)])
      else Some coordinates)"

partial_function (option) grid_x_loop ::
  "int \<Rightarrow> int \<Rightarrow> int \<Rightarrow> int \<Rightarrow> coordinate list \<Rightarrow> coordinate list option"
where
  "grid_x_loop width height resolution vx coordinates =
     (if vx < width
      then Option.bind (grid_y_loop height resolution vx 0 coordinates)
             (\<lambda>coordinates'. grid_x_loop width height resolution (vx + resolution) coordinates')
      else Some coordinates)"

declare grid_y_loop.simps [code]
declare grid_x_loop.simps [code]

text \<open>\<open>width\<close> and \<open>height\<close> are \<open>window.innerWidth\<close> and \<open>window.innerHeight\<close>.\<close>

definition generateCoordinateGrid :: "int \<Rightarrow> int \<Rightarrow> int \<Rightarrow> coordinate list option" where
  "generateCoordinateGrid width height resolution = grid_x_loop width height resolution 0 []"

text \<open>\<open>sampleCoordinate\<close> returns its result and the console messages it wrote.\<close>

definition sampleCoordinate :: "'n document \<Rightarrow> jsval \<Rightarrow> jsval \<Rightarrow> 'n option \<times> console_msg list" where
  "sampleCoordinate d vx vy =
     (case elementFromPoint d vx vy of
        Thrown \<Rightarrow> (None, [ErrorSampling vx vy])
      | Returned None \<Rightarrow> (None, [])
      | Returned (Some element) \<Rightarrow>
          if \<not> contains d element then (None, [WarnElementRemoved vx vy])
          else (findInteractiveAncestor d (Some element), []))"

text \<open>
  The options of \<open>calculate\<close>. \<open>None\<close> is an option that was not given. The progress
  callback is represented by whether one was given; its invocations are recorded. The
  signal is represented by the value of \<open>signal.aborted\<close> at the start of each iteration.
\<close>

record calc_options =
  timeout :: "rat option"
  onProgress :: bool
  signal :: "(nat \<Rightarrow> bool) option"

text \<open>
  What a pass reads from its surroundings: the viewport size, the successive readings of
  \<open>performance.now()\<close> in milliseconds (\<open>now k\<close> is the value of the call number \<open>k\<close>,
  counted from 0; the readings are exact numbers here), and the document as it is during
  each iteration.
\<close>

record 'n environment =
  innerWidth :: int
  innerHeight :: int
  now :: "nat \<Rightarrow> rat"
  documentAt :: "nat \<Rightarrow> 'n document"

datatype calc_error = CalculationCancelled | CalculationTimeout rat

text \<open>
  The effects of a pass besides its result: the points at which it called
  \<open>document.elementFromPoint\<close>, in order, its progress callbacks and its console output.
\<close>

record calc_effects =
  hitTests :: "(jsval \<times> jsval) list"
  progressCalls :: "(rat \<times> nat \<times> nat) list"
  console :: "console_msg list"

text \<open>\<open>a % b\<close> on non-negative integers: the remainder, or \<open>NaN\<close> (\<open>None\<close>) when \<open>b\<close> is 0.\<close>

definition js_mod :: "nat \<Rightarrow> nat \<Rightarrow> nat option" where
  "js_mod a b = (if b = 0 then None else Some (a mod b))"

text \<open>
  The body of the \<open>try\<close> block inside the loop of \<open>calculate\<close>: sample the coordinate
  and, if an element was found and is still in the document, add the coordinate to the
  map. It returns the map and the console messages written. Its \<open>catch\<close> has no
  counterpart: nothing in the block throws in this model, since \<open>sampleCoordinate\<close>
  catches the failure of the hit test itself.
\<close>

definition sample_and_add ::
  "'n document \<Rightarrow> coordinate \<Rightarrow> 'n hit_region_map \<Rightarrow> 'n hit_region_map \<times> console_msg list"
where
  "sample_and_add d coord m =
     (let (element, msgs) = sampleCoordinate d (coord_x coord) (coord_y coord)
      in case element of
           None \<Rightarrow> (m, msgs)
         | Some el \<Rightarrow>
             if contains d el
             then (let (ok, m1, w) = addCoordinate m (Some el) (Some coord) in (m1, msgs @ w))
             else (m, msgs))"

text \<open>The two checks made at the start of iteration \<open>i\<close>, and the progress report made at its end.\<close>

definition cancelled_at :: "(nat \<Rightarrow> bool) option \<Rightarrow> nat \<Rightarrow> bool" where
  "cancelled_at sig i = (case sig of None \<Rightarrow> False | Some aborted \<Rightarrow> aborted i)"

definition timed_out_at :: "'n environment \<Rightarrow> rat \<Rightarrow> rat \<Rightarrow> nat \<Rightarrow> bool" where
  "timed_out_at env startTime tmo i = (now env (Suc i) - startTime > tmo)"

definition progress_report :: "bool \<Rightarrow> nat \<Rightarrow> nat \<Rightarrow> (rat \<times> nat \<times> nat) list" where
  "progress_report progress i totalCoordinates =
     (if progress \<and> js_mod i (totalCoordinates div 10) = Some 0
      then [((of_nat i / of_nat totalCoordinates) * 100, i, totalCoordinates)]
      else [])"

text \<open>
  The sampling loop of \<open>calculate\<close>, from iteration \<open>i\<close> on; the list holds the
  coordinates still to be sampled. The result is \<open>Inl\<close> for a thrown error. Iteration \<open>i\<close>
  reads the clock with call number \<open>i + 1\<close>, call 0 being the reading of \<open>startTime\<close>.
  \<open>sampleCoordinate\<close> makes one hit test, at the coordinate it is given.
\<close>

fun calculate_loop ::
  "'n environment \<Rightarrow> rat \<Rightarrow> bool \<Rightarrow> (nat \<Rightarrow> bool) option \<Rightarrow> rat \<Rightarrow> nat \<Rightarrow> nat \<Rightarrow>
   coordinate list \<Rightarrow> 'n hit_region_map \<Rightarrow> calc_effects \<Rightarrow>
   (calc_error + 'n hit_region_map) \<times> calc_effects"
where
  "calculate_loop env tmo progress sig startTime totalCoordinates i [] m eff = (Inr m, eff)"
| "calculate_loop env tmo progress sig startTime totalCoordinates i (coord # rest) m eff =
     (if cancelled_at sig i then (Inl CalculationCancelled, eff)
      else if timed_out_at env startTime tmo i
      then (Inl (CalculationTimeout tmo), eff\<lparr>console := console eff @ [ErrorTimeout]\<rparr>)
      else
        (let (m', msgs) = sample_and_add (documentAt env i) coord m
         in calculate_loop env tmo progress sig startTime totalCoordinates (Suc i) rest m'
              (eff\<lparr>hitTests := hitTests eff @ [(coord_x coord, coord_y coord)],
                   progressCalls := progressCalls eff @ progress_report progress i totalCoordinates,
                   console := console eff @ msgs\<rparr>)))"

text \<open>The destructuring default \<open>timeout = 5000\<close> of \<open>calculate\<close>, in milliseconds.\<close>

definition effective_timeout :: "calc_options \<Rightarrow> rat" where
  "effective_timeout options = (case timeout options of None \<Rightarrow> 5000 | Some t \<Rightarrow> t)"

text \<open>
  \<open>calculate\<close>. The first argument after the environment is the resolution, \<open>None\<close> when
  it is not given. The outer \<open>None\<close> is a call that never returns because the grid loop
  does not end.
\<close>

definition calculate ::
  "'n environment \<Rightarrow> int option \<Rightarrow> calc_options \<Rightarrow>
   ((calc_error + 'n hit_region_map) \<times> calc_effects) option"
where
  "calculate env resolutionArg options =
     (let resolution = (case resolutionArg of None \<Rightarrow> 10 | Some r \<Rightarrow> r);
          tmo = effective_timeout options;
          startTime = now env 0
      in case generateCoordinateGrid (innerWidth env) (innerHeight env) resolution of
           None \<Rightarrow> None
         | Some coordinates \<Rightarrow>
             Some (case calculate_loop env tmo (onProgress options) (signal options) startTime
                          (length coordinates) 0 coordinates (new_HitRegionMap None)
                          \<lparr>hitTests = [], progressCalls = [], console = []\<rparr> of
                     (Inl e, eff) \<Rightarrow> (Inl e, eff)
                   | (Inr m, eff) \<Rightarrow>
                       (let duration = now env (Suc (length coordinates)) - startTime
                        in (Inr m,
                            eff\<lparr>console := console eff
                                  @ (if duration > 500 then [WarnSlowCalculation] else [])
                                  @ [LogCalculationComplete]\<rparr>))))"

definition getHitRegion :: "'n hit_region_map option \<Rightarrow> 'n option \<Rightarrow> coordinate option list" where
  "getHitRegion hitRegionMap element =
     (case (hitRegionMap, element) of
        (Some m, Some el) \<Rightarrow> getCoordinates m (Some el)
      | _ \<Rightarrow> [])"

text \<open>The two views of a map mirror one relation between keys and elements.\<close>

definition index_consistent :: "'e hit_region_map \<Rightarrow> bool" where
  "index_consistent m =
     ((\<forall>k e. coordinateToElement m k = Some e \<longrightarrow>
              (\<exists>ks. elementToCoordinates m e = Some ks \<and> k \<in> set ks)) \<and>
      (\<forall>e ks k. elementToCoordinates m e = Some ks \<and> k \<in> set ks \<longrightarrow>
              coordinateToElement m k = Some e))"

section \<open>content.js: the caller of calculate\<close>

text \<open>
  \<open>calculateHitRegions\<close> with the module variable \<open>hitRegionMap\<close> (\<open>None\<close> is \<open>null\<close>) passed
  in and returned. It reads the clock once before calling \<open>calculate\<close>, so \<open>calculate\<close>
  sees the readings from call 1 on; \<open>aborted\<close> is the state of the signal of the abort
  controller it creates. The result is \<open>Inl\<close> when the error is thrown on to the caller.
\<close>

definition calculateHitRegions ::
  "'n environment \<Rightarrow> (nat \<Rightarrow> bool) \<Rightarrow> int \<Rightarrow> 'n hit_region_map option \<Rightarrow>
   ((calc_error + 'n hit_region_map) \<times> 'n hit_region_map option \<times> calc_effects) option"
where
  "calculateHitRegions env aborted samplingResolution hitRegionMap =
     (case calculate (env\<lparr>now := \<lambda>k. now env (Suc k)\<rparr>) (Some samplingResolution)
             \<lparr>timeout = Some 10000, onProgress = True, signal = Some aborted\<rparr> of
        None \<Rightarrow> None
      | Some (Inr m, eff) \<Rightarrow> Some (Inr m, Some m, eff)
      | Some (Inl e, eff) \<Rightarrow> Some (Inl e, hitRegionMap, eff))"

text \<open>The part of \<open>currentConfig\<close> that \<open>handlePageChanges\<close> and its callee read.\<close>

record config =
  samplingResolution :: int
  autoRecalculate :: bool

text \<open>
  \<open>handlePageChanges\<close>, reduced to what it does to the module variable
  \<open>hitRegionMap\<close>, which is passed in and returned: it clears the map that the variable
  holds (\<open>hitRegionMap.clear()\<close>, in place) and, if auto-recalculation is configured,
  calls \<open>calculateHitRegions\<close> and catches the error of an aborted pass. The drawing
  that follows is not modelled. \<open>currentConfig\<close> is \<open>None\<close> when it is \<open>null\<close>; the outer
  \<open>None\<close> of the result is a call that never returns.
\<close>

definition handlePageChanges ::
  "'n environment \<Rightarrow> (nat \<Rightarrow> bool) \<Rightarrow> config option \<Rightarrow> 'n hit_region_map option \<Rightarrow>
   'n hit_region_map option option"
where
  "handlePageChanges env aborted currentConfig previous =
     (let invalidated = map_option clear previous in
      case currentConfig of
        None \<Rightarrow> Some invalidated
      | Some cfg \<Rightarrow>
          if autoRecalculate cfg
          then (case calculateHitRegions env aborted (samplingResolution cfg) invalidated of
                  None \<Rightarrow> None
                | Some (res, current, eff) \<Rightarrow> Some current)
          else Some invalidated)"

text \<open>
  An environment for evaluation: a viewport of the given size showing the page above,
  with a clock that advances one millisecond per reading.
\<close>

definition page_env :: "int \<Rightarrow> int \<Rightarrow> nat environment" where
  "page_env w h = \<lparr>innerWidth = w, innerHeight = h, now = (\<lambda>k. of_nat k), documentAt = (\<lambda>i. page)\<rparr>"

text \<open>An Index built earlier, for evaluation: element 3 with the coordinate \<open>(0, 0)\<close>.\<close>

definition page_index :: "nat hit_region_map" where
  "page_index =
     fst (snd (addCoordinate (new_HitRegionMap None) (Some 3)
                 (Some (createCoordinate (Num 0) (Num 0)))))"

section \<open>content.js: the mutation relevance filter\<close>


datatype node_kind = ElementNode | TextNode






section \<open>Properties of the key encoding\<close>

lemma of_char_digit_char: "d < 10 \<Longrightarrow> (of_char (digit_char d) :: nat) = 48 + d"
  by (simp add: digit_char_def)

lemma isDigit_digit_char: "d < 10 \<Longrightarrow> isDigit (digit_char d)"
  by (simp add: isDigit_def of_char_digit_char)

lemma digit_val_digit_char: "d < 10 \<Longrightarrow> digit_val (digit_char d) = d"
  by (simp add: digit_val_def of_char_digit_char)

lemma natToString_digits: "list_all isDigit (natToString n)"
proof (induction n rule: natToString.induct)
  case (1 n)
  show ?case
  proof (cases "n < 10")
    case True
    then show ?thesis by (subst natToString.simps) (simp add: isDigit_digit_char)
  next
    case False
    then have "list_all isDigit (natToString (n div 10))" using "1" by simp
    moreover have "isDigit (digit_char (n mod 10))" by (simp add: isDigit_digit_char)
    ultimately show ?thesis using False by (subst natToString.simps) simp
  qed
qed

lemma natToString_nonempty: "natToString n \<noteq> []"
  by (subst natToString.simps) simp

lemma parseNat_snoc: "parseNat (ds @ [d]) = 10 * parseNat ds + digit_val d"
  by (simp add: parseNat_def)

lemma parseNat_natToString: "parseNat (natToString n) = n"
proof (induction n rule: natToString.induct)
  case (1 n)
  show ?case
  proof (cases "n < 10")
    case True
    then show ?thesis
      by (subst natToString.simps) (simp add: parseNat_def digit_val_digit_char)
  next
    case False
    then have ih: "parseNat (natToString (n div 10)) = n div 10" using "1" by simp
    have "natToString n = natToString (n div 10) @ [digit_char (n mod 10)]"
      using False by (subst natToString.simps) simp
    then show ?thesis
      by (simp add: parseNat_snoc ih digit_val_digit_char)
  qed
qed

lemma digits_not_words:
  "list_all isDigit s \<Longrightarrow>
     s \<noteq> ''Infinity'' \<and> s \<noteq> ''+Infinity'' \<and> s \<noteq> ''-Infinity'' \<and> s \<noteq> ''NaN'' \<and> s \<noteq> ''undefined''"
  by (auto simp: isDigit_def)

lemma isDigit_not_comma: "isDigit c \<Longrightarrow> c \<noteq> CHR '',''"
  by (auto simp: isDigit_def)

lemma digits_no_comma: "list_all isDigit s \<Longrightarrow> CHR '','' \<notin> set s"
  by (auto simp: list_all_iff dest: isDigit_not_comma)

lemma js_split_no_sep: "sep \<notin> set s \<Longrightarrow> js_split sep s = [s]"
  by (induction s) auto

lemma js_split_at_sep: "sep \<notin> set a \<Longrightarrow> js_split sep (a @ sep # b) = a # js_split sep b"
  by (induction a) auto

lemma toString_Num_no_comma: "CHR '','' \<notin> set (toString (Num n))"
  using digits_no_comma [OF natToString_digits] by simp

lemma js_Number_digits:
  "list_all isDigit s \<Longrightarrow> s \<noteq> [] \<Longrightarrow> js_Number s = Some (Num (int (parseNat s)))"
  using digits_not_words [of s] by (simp add: js_Number_def)

lemma js_Number_minus_digits:
  assumes "list_all isDigit ds" and "ds \<noteq> []"
  shows "js_Number (CHR ''-'' # ds) = Some (Num (- int (parseNat ds)))"
proof -
  have "ds \<noteq> ''Infinity''" using digits_not_words [OF assms(1)] by simp
  moreover have "\<not> isDigit CHR ''-''" by (simp add: isDigit_def)
  ultimately show ?thesis using assms by (simp add: js_Number_def)
qed

lemma js_Number_toString_Num: "js_Number (toString (Num n)) = Some (Num n)"
proof (cases "n < 0")
  case True
  then show ?thesis
    by (simp add: js_Number_minus_digits natToString_digits natToString_nonempty
          parseNat_natToString)
next
  case False
  then show ?thesis
    by (simp add: js_Number_digits natToString_digits natToString_nonempty
          parseNat_natToString)
qed

lemma keyToCoord_coordToKey_Num:
  "keyToCoord (coordToKey \<lparr>coord_x = Num a, coord_y = Num b\<rparr>) = Some \<lparr>coord_x = Num a, coord_y = Num b\<rparr>"
proof -
  have "js_split CHR '','' (toString (Num a) @ CHR '','' # toString (Num b))
          = [toString (Num a), toString (Num b)]"
    by (simp only: js_split_at_sep [OF toString_Num_no_comma]
          js_split_no_sep [OF toString_Num_no_comma])
  then show ?thesis
    by (simp add: keyToCoord_def coordToKey_def element_at_def js_Number_toString_Num
          del: toString.simps)
qed

lemma isValidCoordinate_Num:
  "isValidCoordinate (Some c) = (\<exists>a b. c = \<lparr>coord_x = Num a, coord_y = Num b\<rparr>)"
proof -
  have "js_isFinite v = (\<exists>n. v = Num n)" for v
    by (cases v) (simp_all add: js_isFinite_def)
  then show ?thesis
    by (cases c) (auto simp: isValidCoordinate_def typeof_number_def js_isNaN_def)
qed

lemma coordToKey_inj_Num:
  assumes "coordToKey \<lparr>coord_x = Num a, coord_y = Num b\<rparr> = coordToKey \<lparr>coord_x = Num a', coord_y = Num b'\<rparr>"
  shows "a = a' \<and> b = b'"
proof -
  have "keyToCoord (coordToKey \<lparr>coord_x = Num a, coord_y = Num b\<rparr>)
          = keyToCoord (coordToKey \<lparr>coord_x = Num a', coord_y = Num b'\<rparr>)"
    by (rule arg_cong [OF assms])
  then have "Some \<lparr>coord_x = Num a, coord_y = Num b\<rparr> = Some \<lparr>coord_x = Num a', coord_y = Num b'\<rparr>"
    by (simp only: keyToCoord_coordToKey_Num)
  then show ?thesis by simp
qed

section \<open>Properties of HitRegionMap\<close>

lemma addCoordinate_below_cap:
  assumes "int (getCoordinateCount m el) < maxCoordinatesPerElement m"
  shows "addCoordinate m (Some el) (Some c) =
           (True,
            m\<lparr>elementToCoordinates :=
                 (elementToCoordinates m)(el \<mapsto>
                    set_add (coordToKey c)
                      (case elementToCoordinates m el of None \<Rightarrow> [] | Some ks \<Rightarrow> ks)),
               elements :=
                 (case elementToCoordinates m el of
                    None \<Rightarrow> set_add el (elements m) | Some ks \<Rightarrow> elements m),
               coordinateToElement := (coordinateToElement m)(coordToKey c \<mapsto> el)\<rparr>,
            [])"
  using assms
  by (cases "elementToCoordinates m el")
     (simp_all add: addCoordinate_def getCoordinateCount_def Let_def)

lemma addCoordinate_at_cap:
  assumes "elementToCoordinates m el = Some ks"
    and "int (length ks) = maxCoordinatesPerElement m"
  shows "addCoordinate m (Some el) (Some c) =
           (False, m, [WarnCoordinateLimit (maxCoordinatesPerElement m)])"
  using assms by (simp add: addCoordinate_def)

lemma set_add_member: "k \<in> set (set_add k ks)"
  by (simp add: set_add_def)

lemma set_set_add: "set (set_add k ks) = insert k (set ks)"
  by (auto simp: set_add_def)

text \<open>
  C6. Per-element size cap, evaluated on a map with cap 1 and one element \<open>0\<close>: the first
  coordinate is stored, the second and the third are dropped with result \<open>False\<close> and
  leave the map as it was, and each of the two dropped calls writes the limit warning.
  The default cap is 10000.
\<close>

theorem addCoordinate_cap_warns_every_time:
  "maxCoordinatesPerElement (new_HitRegionMap None :: nat hit_region_map) = 10000 \<and>
   (let m0 = new_HitRegionMap (Some 1) :: nat hit_region_map;
        (r1, m1, w1) = addCoordinate m0 (Some 0) (Some \<lparr>coord_x = Num 0, coord_y = Num 0\<rparr>);
        (r2, m2, w2) = addCoordinate m1 (Some 0) (Some \<lparr>coord_x = Num 0, coord_y = Num 1\<rparr>);
        (r3, m3, w3) = addCoordinate m2 (Some 0) (Some \<lparr>coord_x = Num 0, coord_y = Num 2\<rparr>)
    in r1 \<and> w1 = [] \<and>
       \<not> r2 \<and> m2 = m1 \<and> w2 = [WarnCoordinateLimit 1] \<and>
       \<not> r3 \<and> m3 = m1 \<and> w3 = [WarnCoordinateLimit 1])"
  by (simp add: new_HitRegionMap_def addCoordinate_def Let_def set_add_def)

text \<open>
  C10. Duplicate coordinate: for two distinct elements \<open>e1\<close> and \<open>e2\<close>, both below the
  cap, adding the coordinate \<open>c\<close> first for \<open>e1\<close> and then for \<open>e2\<close> succeeds twice; afterwards
  \<open>getElement c\<close> is \<open>e2\<close>, the key of \<open>c\<close> is in the key sets of both elements, and for a
  valid \<open>c\<close> the coordinate itself is in \<open>getCoordinates e1\<close> and in \<open>getCoordinates e2\<close>.
\<close>

theorem duplicate_coordinate_last_write_wins:
  assumes "e1 \<noteq> e2"
    and "int (getCoordinateCount m e1) < maxCoordinatesPerElement m"
    and "int (getCoordinateCount m e2) < maxCoordinatesPerElement m"
    and "addCoordinate m (Some e1) (Some c) = (r1, m1, w1)"
    and "addCoordinate m1 (Some e2) (Some c) = (r2, m2, w2)"
  shows "r1 \<and> r2 \<and> getElement m2 (Some c) = Some e2 \<and>
         (\<exists>ks1 ks2. elementToCoordinates m2 e1 = Some ks1 \<and> coordToKey c \<in> set ks1 \<and>
                    elementToCoordinates m2 e2 = Some ks2 \<and> coordToKey c \<in> set ks2) \<and>
         (isValidCoordinate (Some c) \<longrightarrow>
            Some c \<in> set (getCoordinates m2 (Some e1)) \<and>
            Some c \<in> set (getCoordinates m2 (Some e2)))"
proof -
  from assms(2,4) have r1: "r1" and
    m1: "m1 = m\<lparr>elementToCoordinates :=
                 (elementToCoordinates m)(e1 \<mapsto>
                    set_add (coordToKey c)
                      (case elementToCoordinates m e1 of None \<Rightarrow> [] | Some ks \<Rightarrow> ks)),
               elements :=
                 (case elementToCoordinates m e1 of
                    None \<Rightarrow> set_add e1 (elements m) | Some ks \<Rightarrow> elements m),
               coordinateToElement := (coordinateToElement m)(coordToKey c \<mapsto> e1)\<rparr>"
    by (simp_all add: addCoordinate_below_cap)
  have e2m1: "elementToCoordinates m1 e2 = elementToCoordinates m e2"
    using assms(1) by (simp add: m1)
  have max1: "maxCoordinatesPerElement m1 = maxCoordinatesPerElement m"
    by (simp add: m1)
  have below2: "int (getCoordinateCount m1 e2) < maxCoordinatesPerElement m1"
    using assms(3) by (simp add: getCoordinateCount_def e2m1 max1)
  from below2 assms(5) have r2: "r2" and
    m2: "m2 = m1\<lparr>elementToCoordinates :=
                 (elementToCoordinates m1)(e2 \<mapsto>
                    set_add (coordToKey c)
                      (case elementToCoordinates m1 e2 of None \<Rightarrow> [] | Some ks \<Rightarrow> ks)),
               elements :=
                 (case elementToCoordinates m1 e2 of
                    None \<Rightarrow> set_add e2 (elements m1) | Some ks \<Rightarrow> elements m1),
               coordinateToElement := (coordinateToElement m1)(coordToKey c \<mapsto> e2)\<rparr>"
    by (simp_all add: addCoordinate_below_cap)
  have k1: "elementToCoordinates m2 e1 =
              Some (set_add (coordToKey c)
                      (case elementToCoordinates m e1 of None \<Rightarrow> [] | Some ks \<Rightarrow> ks))"
    using assms(1) by (simp add: m2 m1)
  have k2: "elementToCoordinates m2 e2 =
              Some (set_add (coordToKey c)
                      (case elementToCoordinates m1 e2 of None \<Rightarrow> [] | Some ks \<Rightarrow> ks))"
    by (simp add: m2)
  have g: "getElement m2 (Some c) = Some e2"
    by (simp add: getElement_def m2)
  have keys: "\<exists>ks1 ks2. elementToCoordinates m2 e1 = Some ks1 \<and> coordToKey c \<in> set ks1 \<and>
                    elementToCoordinates m2 e2 = Some ks2 \<and> coordToKey c \<in> set ks2"
    using k1 k2 set_add_member by fastforce
  have dec: "Some c \<in> set (getCoordinates m2 (Some e1)) \<and>
             Some c \<in> set (getCoordinates m2 (Some e2))" if v: "isValidCoordinate (Some c)"
  proof -
    from v obtain a b where c: "c = \<lparr>coord_x = Num a, coord_y = Num b\<rparr>"
      by (auto simp: isValidCoordinate_Num)
    have rt: "keyToCoord (coordToKey c) = Some c"
      unfolding c by (rule keyToCoord_coordToKey_Num)
    have "Some c \<in> keyToCoord ` set ks" if "coordToKey c \<in> set ks" for ks
      using that rt by (metis imageI)
    then show ?thesis
      by (simp add: getCoordinates_def k1 k2 set_add_member)
  qed
  from r1 r2 g keys dec show ?thesis by blast
qed

theorem duplicate_coordinate_last_write_wins_witness:
  "(let m0 = new_HitRegionMap None :: nat hit_region_map;
        c = \<lparr>coord_x = Num 50, coord_y = Num 50\<rparr>;
        (r1, m1, w1) = addCoordinate m0 (Some 1) (Some c);
        (r2, m2, w2) = addCoordinate m1 (Some 2) (Some c)
    in (1::nat) \<noteq> 2 \<and>
       int (getCoordinateCount m0 1) < maxCoordinatesPerElement m0 \<and>
       int (getCoordinateCount m0 2) < maxCoordinatesPerElement m0 \<and>
       isValidCoordinate (Some c) \<and>
       r1 \<and> r2 \<and> getElement m2 (Some c) = Some 2 \<and>
       Some c \<in> set (getCoordinates m2 (Some 1)) \<and>
       Some c \<in> set (getCoordinates m2 (Some 2)))"
proof -
  define m0 where "m0 = (new_HitRegionMap None :: nat hit_region_map)"
  define c where "c = \<lparr>coord_x = Num 50, coord_y = Num 50\<rparr>"
  obtain r1 m1 w1 where a1: "addCoordinate m0 (Some 1) (Some c) = (r1, m1, w1)"
    by (cases "addCoordinate m0 (Some 1) (Some c)") auto
  obtain r2 m2 w2 where a2: "addCoordinate m1 (Some 2) (Some c) = (r2, m2, w2)"
    by (cases "addCoordinate m1 (Some 2) (Some c)") auto
  have h1: "(1::nat) \<noteq> 2" by simp
  have h2: "int (getCoordinateCount m0 1) < maxCoordinatesPerElement m0"
    by (simp add: m0_def new_HitRegionMap_def getCoordinateCount_def)
  have h3: "int (getCoordinateCount m0 2) < maxCoordinatesPerElement m0"
    by (simp add: m0_def new_HitRegionMap_def getCoordinateCount_def)
  have v: "isValidCoordinate (Some c)"
    by (simp add: c_def isValidCoordinate_def typeof_number_def js_isNaN_def js_isFinite_def)
  from duplicate_coordinate_last_write_wins [OF h1 h2 h3 a1 a2] v h1 h2 h3 a1 a2
  show ?thesis
    unfolding m0_def [symmetric] c_def [symmetric] by (simp add: Let_def)
qed

section \<open>Properties of the classifier and the ancestor search\<close>

lemma page_interactive:
  "\<not> isInteractive page (Some 1)" "isInteractive page (Some 2)" "isInteractive page (Some 3)"
  "\<not> isInteractive page (Some 4)" "\<not> isInteractive page (Some 5)" "isInteractive page (Some 6)"
  "\<not> isInteractive page (Some 7)" "\<not> isInteractive page (Some 8)" "isInteractive page (Some 0)"
  "\<not> isInteractive page (Some 9)" "\<not> isInteractive page (Some 10)"
  by code_simp+

text \<open>
  C5, as stated, fails on a \<open>button\<close> element that carries an empty \<open>role\<close> attribute (node
  6 of the page): the attribute is present and its value is neither \<open>button\<close> nor \<open>link\<close>,
  yet the element is classified interactive through its implicit role.
\<close>

theorem isInteractive_empty_role_counterexample:
  "getAttribute page 6 ''role'' = Some '''' \<and>
   \<not> claimed_isInteractive page (Some 6) \<and> isInteractive page (Some 6)"
  by code_simp

lemma getImplicitRole_button:
  "getImplicitRole d el = Some ''button'' \<longleftrightarrow>
     toLowerCase (tagName d el) = ''button'' \<or>
     toLowerCase (tagName d el) = ''input'' \<and>
       getAttribute d el ''type'' \<in> {Some ''button'', Some ''submit'', Some ''reset'', Some ''image''}"
  by (simp add: getImplicitRole_def Let_def)

lemma getImplicitRole_link:
  "getImplicitRole d el = Some ''link'' \<longleftrightarrow>
     (toLowerCase (tagName d el) = ''a'' \<or> toLowerCase (tagName d el) = ''area'') \<and>
     getAttribute d el ''href'' \<noteq> None"
  by (auto simp add: getImplicitRole_def Let_def hasAttribute_def)

lemma getImplicitRole_range:
  "getImplicitRole d el \<in> {None, Some ''button'', Some ''link''}"
  by (simp add: getImplicitRole_def Let_def)

text \<open>
  C5, amended. A node is interactive iff it is an element, its effective role is \<open>button\<close>
  or \<open>link\<close>, and its computed pointer-events style is not \<open>none\<close>; the effective role is
  the explicit \<open>role\<close> attribute if present and not empty, otherwise the implicit role. The
  implicit role is \<open>button\<close> exactly for a \<open>button\<close> tag and for an \<open>input\<close> tag of type
  button, submit, reset or image, \<open>link\<close> exactly for an \<open>a\<close> or \<open>area\<close> tag with an
  \<open>href\<close> attribute, and absent otherwise. \<open>null\<close> and non-element nodes are never
  interactive, and neither is an element with \<open>role="button"\<close> and pointer-events \<open>none\<close>.
\<close>

theorem isInteractive_iff:
  "(isInteractive d node \<longleftrightarrow>
      (\<exists>el. node = Some el \<and> isElement d el \<and>
            (let role = (case getAttribute d el ''role'' of
                           None \<Rightarrow> getImplicitRole d el
                         | Some r \<Rightarrow> if r = '''' then getImplicitRole d el else Some r)
             in role = Some ''button'' \<or> role = Some ''link'') \<and>
            computedPointerEvents d el \<noteq> ''none'')) \<and>
   (getImplicitRole d el' = Some ''button'' \<longleftrightarrow>
      toLowerCase (tagName d el') = ''button'' \<or>
      toLowerCase (tagName d el') = ''input'' \<and>
        getAttribute d el' ''type'' \<in> {Some ''button'', Some ''submit'', Some ''reset'', Some ''image''}) \<and>
   (getImplicitRole d el' = Some ''link'' \<longleftrightarrow>
      (toLowerCase (tagName d el') = ''a'' \<or> toLowerCase (tagName d el') = ''area'') \<and>
      getAttribute d el' ''href'' \<noteq> None) \<and>
   getImplicitRole d el' \<in> {None, Some ''button'', Some ''link''} \<and>
   \<not> isInteractive d None \<and>
   (\<not> isElement d el' \<longrightarrow> \<not> isInteractive d (Some el')) \<and>
   (getAttribute d el' ''role'' = Some ''button'' \<and> computedPointerEvents d el' = ''none''
      \<longrightarrow> \<not> isInteractive d (Some el'))"
proof -
  have main: "isInteractive d node \<longleftrightarrow>
      (\<exists>el. node = Some el \<and> isElement d el \<and>
            (let role = (case getAttribute d el ''role'' of
                           None \<Rightarrow> getImplicitRole d el
                         | Some r \<Rightarrow> if r = '''' then getImplicitRole d el else Some r)
             in role = Some ''button'' \<or> role = Some ''link'') \<and>
            computedPointerEvents d el \<noteq> ''none'')"
    by (cases node) (auto simp: isInteractive_def string_or_def Let_def split: option.splits)
  have n: "\<not> isInteractive d None" by (simp add: isInteractive_def)
  have ne: "\<not> isElement d el' \<longrightarrow> \<not> isInteractive d (Some el')"
    by (simp add: isInteractive_def)
  have pe: "getAttribute d el' ''role'' = Some ''button'' \<and> computedPointerEvents d el' = ''none''
      \<longrightarrow> \<not> isInteractive d (Some el')"
    by (simp add: isInteractive_def string_or_def Let_def)
  from main n ne pe getImplicitRole_button [of d el'] getImplicitRole_link [of d el']
    getImplicitRole_range [of d el']
  show ?thesis by (intro conjI)
qed

theorem isInteractive_iff_witness:
  "\<not> isElement page 5 \<and> \<not> isInteractive page (Some 5) \<and>
   getAttribute page 7 ''role'' = Some ''button'' \<and> computedPointerEvents page 7 = ''none'' \<and>
   \<not> isInteractive page (Some 7)"
proof -
  have a: "\<not> isElement page 5" by (simp add: page_def)
  have b: "getAttribute page 7 ''role'' = Some ''button'' \<and> computedPointerEvents page 7 = ''none''"
    by (simp add: page_def page_attrs_def)
  from isInteractive_iff [of page None 5] a have "\<not> isInteractive page (Some 5)" by blast
  moreover from isInteractive_iff [of page None 7] b have "\<not> isInteractive page (Some 7)" by blast
  ultimately show ?thesis using a b by simp
qed

lemma ancestor_loop_find:
  "ancestor_loop d xs =
     find (\<lambda>c. isInteractive d (Some c))
       (takeWhile (\<lambda>c. c \<noteq> documentElement d \<and> c \<noteq> documentNode d) xs)"
  by (induction xs) auto

text \<open>
  C4, as stated, fails on the page above: the text node 5 sits in the interactive button
  3, and the \<open>body\<close> element 1 sits in the interactive root element 0, so the chain that
  starts at each of them holds an interactive node; \<open>findInteractiveAncestor\<close> returns
  none for both.
\<close>

theorem findInteractiveAncestor_counterexample:
  "claimed_findInteractiveAncestor page 5 = Some 3 \<and> findInteractiveAncestor page (Some 5) = None \<and>
   claimed_findInteractiveAncestor page 1 = Some 0 \<and> findInteractiveAncestor page (Some 1) = None"
  by code_simp

text \<open>
  C4, amended. For an element node, \<open>findInteractiveAncestor\<close> walks the chain that starts
  at the node itself and stops before the document's root element (or at the end of the
  chain), and returns the first node on that part of the chain for which \<open>isInteractive\<close>
  holds, none if there is no such node; the root element itself is never tested. For
  \<open>null\<close> and for a node that is not an element the result is none. In particular, an
  element that is not itself interactive, whose parent and grandparent are both
  interactive and whose parent is not the root, gets its parent; a node with no
  interactive node on its chain gets none.
\<close>

theorem findInteractiveAncestor_nearest:
  "findInteractiveAncestor d node =
     (case node of
        None \<Rightarrow> None
      | Some n \<Rightarrow>
          if isElement d n
          then find (\<lambda>c. isInteractive d (Some c))
                 (takeWhile (\<lambda>c. c \<noteq> documentElement d \<and> c \<noteq> documentNode d)
                    (n # ancestorElements d n))
          else None) \<and>
   (isElement d n' \<and> \<not> isInteractive d (Some n') \<and>
    n' \<noteq> documentElement d \<and> n' \<noteq> documentNode d \<and>
    ancestorElements d n' = p # g # rest \<and>
    p \<noteq> documentElement d \<and> p \<noteq> documentNode d \<and>
    isInteractive d (Some p) \<and> isInteractive d (Some g)
      \<longrightarrow> findInteractiveAncestor d (Some n') = Some p) \<and>
   ((\<forall>c \<in> set (n' # ancestorElements d n'). \<not> isInteractive d (Some c))
      \<longrightarrow> findInteractiveAncestor d (Some n') = None)"
proof -
  have gen: "findInteractiveAncestor d node =
     (case node of
        None \<Rightarrow> None
      | Some n \<Rightarrow>
          if isElement d n
          then find (\<lambda>c. isInteractive d (Some c))
                 (takeWhile (\<lambda>c. c \<noteq> documentElement d \<and> c \<noteq> documentNode d)
                    (n # ancestorElements d n))
          else None)"
    by (simp add: findInteractiveAncestor_def ancestor_loop_find split: option.splits)
  have near: "findInteractiveAncestor d (Some n') = Some p"
    if "isElement d n'" "\<not> isInteractive d (Some n')"
      "n' \<noteq> documentElement d" "n' \<noteq> documentNode d"
      "ancestorElements d n' = p # g # rest"
      "p \<noteq> documentElement d" "p \<noteq> documentNode d"
      "isInteractive d (Some p)"
    using that by (simp add: findInteractiveAncestor_def)
  have none: "findInteractiveAncestor d (Some n') = None"
    if h: "\<forall>c \<in> set (n' # ancestorElements d n'). \<not> isInteractive d (Some c)"
  proof -
    have "ancestor_loop d xs = None" if "\<forall>c \<in> set xs. \<not> isInteractive d (Some c)" for xs
      using that by (induction xs) auto
    then show ?thesis using h by (simp add: findInteractiveAncestor_def)
  qed
  from gen near none show ?thesis by blast
qed

theorem findInteractiveAncestor_nearest_witness:
  "isElement page 4 \<and> \<not> isInteractive page (Some 4) \<and>
   4 \<noteq> documentElement page \<and> 4 \<noteq> documentNode page \<and>
   ancestorElements page 4 = [3, 2, 1, 0] \<and>
   3 \<noteq> documentElement page \<and> 3 \<noteq> documentNode page \<and>
   isInteractive page (Some 3) \<and> isInteractive page (Some 2) \<and>
   findInteractiveAncestor page (Some 4) = Some 3 \<and>
   ancestorElements page 10 = [9] \<and>
   \<not> isInteractive page (Some 10) \<and> \<not> isInteractive page (Some 9) \<and>
   findInteractiveAncestor page (Some 10) = None"
proof -
  have e: "isElement page 4" "ancestorElements page 4 = 3 # 2 # [1, 0]"
    "documentElement page = 0" "documentNode page = 100"
    "ancestorElements page 10 = [9]"
    by (simp_all add: page_def)
  have h1: "isElement page 4 \<and> \<not> isInteractive page (Some 4) \<and>
    4 \<noteq> documentElement page \<and> 4 \<noteq> documentNode page \<and>
    ancestorElements page 4 = 3 # 2 # [1, 0] \<and>
    3 \<noteq> documentElement page \<and> 3 \<noteq> documentNode page \<and>
    isInteractive page (Some 3) \<and> isInteractive page (Some 2)"
    using e page_interactive by simp
  have h2: "\<forall>c \<in> set (10 # ancestorElements page 10). \<not> isInteractive page (Some c)"
    using e page_interactive by simp
  have r1: "findInteractiveAncestor page (Some 4) = Some 3"
    using findInteractiveAncestor_nearest [of page None 4 3 2 "[1, 0]"] h1 by blast
  have r2: "findInteractiveAncestor page (Some 10) = None"
    using findInteractiveAncestor_nearest [of page None 10 3 2 "[]"] h2 by blast
  from h1 r1 r2 e page_interactive show ?thesis by simp
qed

section \<open>Properties of the coordinate grid\<close>

lemma grid_y_loop_closed:
  assumes "0 < r"
  shows "nat (- ((vy - H) div r)) = n \<Longrightarrow>
         grid_y_loop H r vx vy cs =
           Some (cs @ map (\<lambda>j. createCoordinate (Num vx) (Num (vy + int j * r))) [0..<n])"
proof (induction n arbitrary: vy cs)
  case 0
  then have "0 \<le> (vy - H) div r" by simp
  then have "H \<le> vy" using assms by (simp add: pos_imp_zdiv_nonneg_iff)
  then show ?case by (subst grid_y_loop.simps) simp
next
  case (Suc n)
  have lt: "vy < H"
  proof (rule ccontr)
    assume "\<not> vy < H"
    then have "0 \<le> (vy - H) div r" using assms by (simp add: pos_imp_zdiv_nonneg_iff)
    then show False using Suc.prems by simp
  qed
  have "(vy + r - H) div r = (vy - H) div r + 1"
    using assms div_add_self2 [of r "vy - H"] by (simp add: algebra_simps)
  then have "nat (- ((vy + r - H) div r)) = n" using Suc.prems by simp
  from Suc.IH [OF this]
  have "grid_y_loop H r vx (vy + r) (cs @ [createCoordinate (Num vx) (Num vy)]) =
          Some ((cs @ [createCoordinate (Num vx) (Num vy)])
                 @ map (\<lambda>j. createCoordinate (Num vx) (Num (vy + r + int j * r))) [0..<n])" .
  moreover have "map (\<lambda>j. createCoordinate (Num vx) (Num (vy + int j * r))) [0..<Suc n] =
          createCoordinate (Num vx) (Num vy)
            # map (\<lambda>j. createCoordinate (Num vx) (Num (vy + r + int j * r))) [0..<n]"
    by (simp only: upt_conv_Cons [OF zero_less_Suc] map_Suc_upt [symmetric])
       (simp add: algebra_simps comp_def)
  ultimately show ?case using lt by (subst grid_y_loop.simps) (simp del: upt_Suc)
qed

lemma grid_x_loop_closed:
  assumes "0 < r"
  shows "nat (- ((vx - W) div r)) = n \<Longrightarrow>
         grid_x_loop W H r vx cs =
           Some (cs @ concat (map (\<lambda>i. map (\<lambda>j. createCoordinate (Num (vx + int i * r)) (Num (int j * r)))
                                     [0..<nat (- ((- H) div r))]) [0..<n]))"
proof (induction n arbitrary: vx cs)
  case 0
  then have "0 \<le> (vx - W) div r" by simp
  then have "W \<le> vx" using assms by (simp add: pos_imp_zdiv_nonneg_iff)
  then show ?case by (subst grid_x_loop.simps) simp
next
  case (Suc n)
  let ?col = "\<lambda>x. map (\<lambda>j. createCoordinate (Num x) (Num (int j * r))) [0..<nat (- ((- H) div r))]"
  have lt: "vx < W"
  proof (rule ccontr)
    assume "\<not> vx < W"
    then have "0 \<le> (vx - W) div r" using assms by (simp add: pos_imp_zdiv_nonneg_iff)
    then show False using Suc.prems by simp
  qed
  have "(vx + r - W) div r = (vx - W) div r + 1"
    using assms div_add_self2 [of r "vx - W"] by (simp add: algebra_simps)
  then have "nat (- ((vx + r - W) div r)) = n" using Suc.prems by simp
  from Suc.IH [OF this]
  have ih: "grid_x_loop W H r (vx + r) (cs @ ?col vx) =
          Some ((cs @ ?col vx) @ concat (map (\<lambda>i. ?col (vx + r + int i * r)) [0..<n]))" .
  have col: "grid_y_loop H r vx 0 cs = Some (cs @ ?col vx)"
    using grid_y_loop_closed [OF assms, of 0 H "nat (- ((- H) div r))" vx cs] by simp
  have "concat (map (\<lambda>i. ?col (vx + int i * r)) [0..<Suc n]) =
          ?col vx @ concat (map (\<lambda>i. ?col (vx + r + int i * r)) [0..<n])"
    by (simp only: upt_conv_Cons [OF zero_less_Suc] map_Suc_upt [symmetric])
       (simp add: algebra_simps comp_def)
  then show ?case using lt col ih by (subst grid_x_loop.simps) (simp del: upt_Suc)
qed

lemma generateCoordinateGrid_closed:
  assumes "0 < r"
  shows "generateCoordinateGrid W H r =
           Some (concat (map (\<lambda>i. map (\<lambda>j. createCoordinate (Num (int i * r)) (Num (int j * r)))
                                 [0..<nat (- ((- H) div r))]) [0..<nat (- ((- W) div r))]))"
  using grid_x_loop_closed [OF assms, of 0 W "nat (- ((- W) div r))" H "[]"]
  by (simp add: generateCoordinateGrid_def)

lemma concat_map_product:
  "concat (map (\<lambda>i. map (\<lambda>j. f i j) ys) xs) = map (\<lambda>(i, j). f i j) (List.product xs ys)"
  by (induction xs) (simp_all add: comp_def)

lemma grid_index_bound:
  assumes "0 < r" and "i < nat (- ((- W) div r))"
  shows "int i * r < W"
proof -
  define q where "q = (- W) div r"
  have e: "- W = q * r + (- W) mod r" by (simp add: q_def)
  have m: "(- W) mod r < r" using assms(1) by simp
  have "int i + 1 \<le> - q" using assms(2) unfolding q_def by linarith
  then have "(int i + 1) * r \<le> (- q) * r"
    using assms(1) by (intro mult_right_mono) simp_all
  then have "int i * r + r \<le> - (q * r)" by (simp add: algebra_simps)
  with e m show ?thesis by linarith
qed

lemma grid_points_distinct:
  assumes "0 < r"
  shows "distinct (map (\<lambda>(i, j). createCoordinate (Num (int i * r)) (Num (int j * r)))
                    (List.product [0..<nx] [0..<ny]))"
proof -
  have "inj (\<lambda>(i, j). createCoordinate (Num (int i * r)) (Num (int j * r)))"
    using assms by (auto simp: inj_on_def createCoordinate_def)
  then have "inj_on (\<lambda>(i, j). createCoordinate (Num (int i * r)) (Num (int j * r)))
               (set (List.product [0..<nx] [0..<ny]))"
    by (rule inj_on_subset) simp
  then show ?thesis by (simp add: distinct_map distinct_product)
qed

lemma generateCoordinateGrid_positive:
  assumes "0 < r" and "generateCoordinateGrid W H r = Some g"
  shows "distinct g"
    and "\<forall>c \<in> set g. \<exists>a b. c = createCoordinate (Num a) (Num b) \<and>
                              0 \<le> a \<and> a < W \<and> 0 \<le> b \<and> b < H"
    and "length g = nat (- ((- W) div r)) * nat (- ((- H) div r))"
proof -
  let ?nx = "nat (- ((- W) div r))" and ?ny = "nat (- ((- H) div r))"
  have g: "g = map (\<lambda>(i, j). createCoordinate (Num (int i * r)) (Num (int j * r)))
                 (List.product [0..<?nx] [0..<?ny])"
    using assms(2) generateCoordinateGrid_closed [OF assms(1), of W H]
    by (simp add: concat_map_product)
  show "distinct g" unfolding g by (rule grid_points_distinct [OF assms(1)])
  show "length g = ?nx * ?ny" unfolding g by simp
  show "\<forall>c \<in> set g. \<exists>a b. c = createCoordinate (Num a) (Num b) \<and>
                              0 \<le> a \<and> a < W \<and> 0 \<le> b \<and> b < H"
  proof
    fix c assume "c \<in> set g"
    then obtain i j where ij: "i < ?nx" "j < ?ny"
      and c: "c = createCoordinate (Num (int i * r)) (Num (int j * r))"
      unfolding g by auto
    have "0 \<le> int i * r" "0 \<le> int j * r" using assms(1) by simp_all
    moreover have "int i * r < W" "int j * r < H"
      using grid_index_bound [OF assms(1)] ij by simp_all
    ultimately show "\<exists>a b. c = createCoordinate (Num a) (Num b) \<and>
                              0 \<le> a \<and> a < W \<and> 0 \<le> b \<and> b < H"
      using c by blast
  qed
qed

text \<open>
  C3. Grid generation: for a viewport of positive integer size \<open>W\<close> by \<open>H\<close> and an integer
  resolution \<open>r\<close> of at least 1 (so in particular for every \<open>r\<close> from 1 to 100),
  \<open>generateCoordinateGrid\<close> returns; the grid is the list of the points \<open>(i r, j r)\<close> in
  column-major order, it has exactly \<open>ceil(W/r) * ceil(H/r)\<close> points, no point occurs
  twice, every point has \<open>x\<close> in \<open>[0, W)\<close> and \<open>y\<close> in \<open>[0, H)\<close>, and \<open>(0, 0)\<close> is one of
  them, whatever the size of \<open>r\<close>.
\<close>

theorem generateCoordinateGrid_points:
  assumes "0 < W" and "0 < H" and "1 \<le> r"
  shows "\<exists>g. generateCoordinateGrid W H r = Some g \<and>
           g = concat (map (\<lambda>i. map (\<lambda>j. createCoordinate (Num (int i * r)) (Num (int j * r)))
                                 [0..<nat \<lceil>of_int H / (of_int r :: rat)\<rceil>])
                        [0..<nat \<lceil>of_int W / (of_int r :: rat)\<rceil>]) \<and>
           int (length g) = \<lceil>of_int W / (of_int r :: rat)\<rceil> * \<lceil>of_int H / (of_int r :: rat)\<rceil> \<and>
           distinct g \<and>
           (\<forall>c \<in> set g. \<exists>a b. c = createCoordinate (Num a) (Num b) \<and>
                               0 \<le> a \<and> a < W \<and> 0 \<le> b \<and> b < H) \<and>
           createCoordinate (Num 0) (Num 0) \<in> set g"
proof -
  have r: "0 < r" using assms(3) by simp
  let ?nx = "nat (- ((- W) div r))" and ?ny = "nat (- ((- H) div r))"
  let ?g = "concat (map (\<lambda>i. map (\<lambda>j. createCoordinate (Num (int i * r)) (Num (int j * r)))
                                 [0..<?ny]) [0..<?nx])"
  have cw: "\<lceil>of_int W / (of_int r :: rat)\<rceil> = - ((- W) div r)"
    and ch: "\<lceil>of_int H / (of_int r :: rat)\<rceil> = - ((- H) div r)"
    by (simp_all only: ceiling_divide_eq_div)
  have g: "generateCoordinateGrid W H r = Some ?g"
    by (rule generateCoordinateGrid_closed [OF r])
  have "(- W) div r < 0" "(- H) div r < 0"
    using assms r by (simp_all add: div_neg_pos_less0)
  then have pos: "0 < ?nx" "0 < ?ny" and nn: "0 \<le> - ((- W) div r)" "0 \<le> - ((- H) div r)"
    by simp_all
  have len: "int (length ?g) = (- ((- W) div r)) * (- ((- H) div r))"
    using generateCoordinateGrid_positive(3) [OF r g] nn by simp
  have zero: "createCoordinate (Num 0) (Num 0) \<in> set ?g"
  proof -
    have "createCoordinate (Num (int 0 * r)) (Num (int 0 * r))
            \<in> (\<lambda>j. createCoordinate (Num (int 0 * r)) (Num (int j * r))) ` {0..<?ny}"
      using pos(2) by (intro imageI) simp
    moreover have "0 \<in> {0..<?nx}" using pos(1) by simp
    ultimately have "createCoordinate (Num (int 0 * r)) (Num (int 0 * r))
            \<in> (\<Union>i \<in> {0..<?nx}. (\<lambda>j. createCoordinate (Num (int i * r)) (Num (int j * r))) ` {0..<?ny})"
      by (rule UN_I [rotated])
    then show ?thesis by simp
  qed
  show ?thesis
    using g len zero generateCoordinateGrid_positive(1,2) [OF r g]
    unfolding cw ch by blast
qed

theorem generateCoordinateGrid_points_witness:
  "(0::int) < 100 \<and> (1::int) \<le> 50 \<and>
   generateCoordinateGrid 100 100 50 =
     Some [createCoordinate (Num 0) (Num 0), createCoordinate (Num 0) (Num 50),
           createCoordinate (Num 50) (Num 0), createCoordinate (Num 50) (Num 50)] \<and>
   generateCoordinateGrid 100 100 100 = Some [createCoordinate (Num 0) (Num 0)]"
proof -
  have h: "(0::int) < 100" "(1::int) \<le> 50" "(1::int) \<le> 100" by simp_all
  from generateCoordinateGrid_points [OF h(1) h(1) h(2)]
  have a: "generateCoordinateGrid 100 100 50 =
     Some [createCoordinate (Num 0) (Num 0), createCoordinate (Num 0) (Num 50),
           createCoordinate (Num 50) (Num 0), createCoordinate (Num 50) (Num 50)]"
    by (simp add: upt_rec)
  from generateCoordinateGrid_points [OF h(1) h(1) h(3)]
  have b: "generateCoordinateGrid 100 100 100 = Some [createCoordinate (Num 0) (Num 0)]"
    by (simp add: upt_rec)
  from a b h show ?thesis by simp
qed

lemma grid_y_loop_returns:
  assumes "grid_y_loop H r vx vy cs = Some res"
  shows "\<not> (vy < H \<and> r \<le> 0)"
proof (rule grid_y_loop.raw_induct [where P = "\<lambda>h s x y acc out. \<not> (y < h \<and> s \<le> 0)", OF _ assms])
  fix f :: "int \<Rightarrow> int \<Rightarrow> int \<Rightarrow> int \<Rightarrow> coordinate list \<Rightarrow> coordinate list option"
    and h s x y acc out
  assume IH: "\<And>h s x y acc out. f h s x y acc = Some out \<Longrightarrow> \<not> (y < h \<and> s \<le> 0)"
    and eq: "(if y < h then f h s x (y + s) (acc @ [createCoordinate (Num x) (Num y)])
              else Some acc) = Some out"
  show "\<not> (y < h \<and> s \<le> 0)"
  proof
    assume a: "y < h \<and> s \<le> 0"
    with eq have "f h s x (y + s) (acc @ [createCoordinate (Num x) (Num y)]) = Some out"
      by simp
    from IH [OF this] a show False by simp
  qed
qed

lemma grid_x_loop_returns:
  assumes "grid_x_loop W H r vx cs = Some res"
  shows "\<not> (vx < W \<and> r \<le> 0)"
proof (rule grid_x_loop.raw_induct [where P = "\<lambda>w h s x acc out. \<not> (x < w \<and> s \<le> 0)", OF _ assms])
  fix f :: "int \<Rightarrow> int \<Rightarrow> int \<Rightarrow> int \<Rightarrow> coordinate list \<Rightarrow> coordinate list option"
    and w h s x acc out
  assume IH: "\<And>w h s x acc out. f w h s x acc = Some out \<Longrightarrow> \<not> (x < w \<and> s \<le> 0)"
    and eq: "(if x < w then Option.bind (grid_y_loop h s x 0 acc) (f w h s (x + s))
              else Some acc) = Some out"
  show "\<not> (x < w \<and> s \<le> 0)"
  proof
    assume a: "x < w \<and> s \<le> 0"
    with eq obtain acc' where "f w h s (x + s) acc' = Some out"
      by (auto simp: bind_eq_Some_conv)
    from IH [OF this] a show False by simp
  qed
qed

lemma generateCoordinateGrid_returns:
  assumes "generateCoordinateGrid W H r = Some g"
  shows "distinct g \<and> (\<forall>c \<in> set g. \<exists>a b. c = \<lparr>coord_x = Num a, coord_y = Num b\<rparr>)"
proof (cases "0 < r")
  case True
  from generateCoordinateGrid_positive(1,2) [OF True assms]
  show ?thesis by (fastforce simp: createCoordinate_def)
next
  case False
  then have "\<not> 0 < W"
    using grid_x_loop_returns [of W H r 0 "[]" g] assms
    by (simp add: generateCoordinateGrid_def)
  then have "g = []"
    using assms by (simp add: generateCoordinateGrid_def grid_x_loop.simps)
  then show ?thesis by simp
qed

section \<open>Properties of the sampling pass\<close>

lemma addCoordinate_shape:
  assumes "addCoordinate m (Some el) (Some c) = (ok, m', w)"
  shows "(coordinateToElement m' = coordinateToElement m \<and>
          (elementToCoordinates m' = elementToCoordinates m \<or>
           elementToCoordinates m el = None \<and>
           elementToCoordinates m' = (elementToCoordinates m)(el \<mapsto> []))) \<or>
         (coordinateToElement m' = (coordinateToElement m)(coordToKey c \<mapsto> el) \<and>
          elementToCoordinates m' =
            (elementToCoordinates m)(el \<mapsto>
               set_add (coordToKey c)
                 (case elementToCoordinates m el of None \<Rightarrow> [] | Some ks \<Rightarrow> ks)))"
  using assms
  by (cases "elementToCoordinates m el")
     (auto simp: addCoordinate_def Let_def split: if_splits)

lemma index_consistent_empty_entry:
  assumes "index_consistent m" and "elementToCoordinates m el = None"
    and "coordinateToElement m' = coordinateToElement m"
    and "elementToCoordinates m' = (elementToCoordinates m)(el \<mapsto> [])"
  shows "index_consistent m'"
proof -
  have fwd: "\<exists>ks. elementToCoordinates m' e = Some ks \<and> k \<in> set ks"
    if "coordinateToElement m' k = Some e" for k e
  proof -
    from that assms(3) have "coordinateToElement m k = Some e" by simp
    then obtain ks where ks: "elementToCoordinates m e = Some ks" "k \<in> set ks"
      using assms(1) unfolding index_consistent_def by blast
    then have "e \<noteq> el" using assms(2) by auto
    then show ?thesis using ks assms(4) by simp
  qed
  have bwd: "coordinateToElement m' k = Some e"
    if "elementToCoordinates m' e = Some ks" "k \<in> set ks" for e ks k
  proof -
    have "e \<noteq> el" using that assms(4) by auto
    then have "elementToCoordinates m e = Some ks" using that(1) assms(4) by simp
    then have "coordinateToElement m k = Some e"
      using assms(1) that(2) unfolding index_consistent_def by blast
    then show ?thesis using assms(3) by simp
  qed
  from fwd bwd show ?thesis unfolding index_consistent_def by blast
qed

lemma index_consistent_fresh_key:
  assumes "index_consistent m" and "k \<notin> dom (coordinateToElement m)"
    and "coordinateToElement m' = (coordinateToElement m)(k \<mapsto> el)"
    and "elementToCoordinates m' =
           (elementToCoordinates m)(el \<mapsto>
              set_add k (case elementToCoordinates m el of None \<Rightarrow> [] | Some ks \<Rightarrow> ks))"
  shows "index_consistent m'"
proof -
  have fwd: "\<exists>ks. elementToCoordinates m' e = Some ks \<and> k' \<in> set ks"
    if "coordinateToElement m' k' = Some e" for k' e
  proof (cases "k' = k")
    case True
    then have "e = el" using that assms(3) by simp
    then show ?thesis using True assms(4) by (simp add: set_add_member)
  next
    case False
    then have "coordinateToElement m k' = Some e" using that assms(3) by simp
    then obtain ks where ks: "elementToCoordinates m e = Some ks" "k' \<in> set ks"
      using assms(1) unfolding index_consistent_def by blast
    show ?thesis
    proof (cases "e = el")
      case True
      then show ?thesis using ks assms(4) by (simp add: set_set_add)
    next
      case False
      then show ?thesis using ks assms(4) by simp
    qed
  qed
  have bwd: "coordinateToElement m' k' = Some e"
    if "elementToCoordinates m' e = Some ks" "k' \<in> set ks" for e ks k'
  proof (cases "k' = k")
    case True
    have "e = el"
    proof (rule ccontr)
      assume "e \<noteq> el"
      then have "elementToCoordinates m e = Some ks" using that(1) assms(4) by simp
      then have "coordinateToElement m k = Some e"
        using assms(1) that(2) True unfolding index_consistent_def by blast
      then show False using assms(2) by blast
    qed
    then show ?thesis using True assms(3) by simp
  next
    case False
    have "\<exists>ks0. elementToCoordinates m e = Some ks0 \<and> k' \<in> set ks0"
    proof (cases "e = el")
      case True
      then have "ks = set_add k (case elementToCoordinates m el of None \<Rightarrow> [] | Some ks \<Rightarrow> ks)"
        using that(1) assms(4) by simp
      then have "k' \<in> set (case elementToCoordinates m el of None \<Rightarrow> [] | Some ks \<Rightarrow> ks)"
        using that(2) False by (simp add: set_set_add)
      then show ?thesis using True by (cases "elementToCoordinates m el") simp_all
    next
      case False
      then show ?thesis using that assms(4) by simp
    qed
    then have "coordinateToElement m k' = Some e"
      using assms(1) unfolding index_consistent_def by blast
    then show ?thesis using False assms(3) by simp
  qed
  from fwd bwd show ?thesis unfolding index_consistent_def by blast
qed

lemma addCoordinate_consistent:
  assumes "index_consistent m" and "coordToKey c \<notin> dom (coordinateToElement m)"
    and "addCoordinate m (Some el) (Some c) = (ok, m', w)"
  shows "index_consistent m' \<and>
         dom (coordinateToElement m') \<subseteq> insert (coordToKey c) (dom (coordinateToElement m))"
  using addCoordinate_shape [OF assms(3)]
proof (elim disjE conjE, goal_cases)
  case 1
  then have "index_consistent m'" using assms(1) unfolding index_consistent_def by simp
  then show ?case using 1 by auto
next
  case 2
  then show ?case using index_consistent_empty_entry [OF assms(1) 2(2,1,3)] by auto
next
  case 3
  then show ?case using index_consistent_fresh_key [OF assms(1,2) 3(1,2)] by auto
qed

lemma sample_and_add_consistent:
  assumes "index_consistent m" and "coordToKey c \<notin> dom (coordinateToElement m)"
    and "sample_and_add d c m = (m', msgs)"
  shows "index_consistent m' \<and>
         dom (coordinateToElement m') \<subseteq> insert (coordToKey c) (dom (coordinateToElement m))"
proof -
  obtain element ms where s: "sampleCoordinate d (coord_x c) (coord_y c) = (element, ms)"
    by (cases "sampleCoordinate d (coord_x c) (coord_y c)") auto
  show ?thesis
  proof (cases "\<exists>el. element = Some el \<and> contains d el")
    case True
    then obtain el where el: "element = Some el" "contains d el" by blast
    obtain ok m1 w where a: "addCoordinate m (Some el) (Some c) = (ok, m1, w)"
      by (cases "addCoordinate m (Some el) (Some c)") auto
    then have "m' = m1" using assms(3) s el by (simp add: sample_and_add_def)
    then show ?thesis using addCoordinate_consistent [OF assms(1,2) a] by simp
  next
    case False
    then have "m' = m" using assms(3) s
      by (cases element) (auto simp: sample_and_add_def split: if_splits)
    then show ?thesis using assms(1) by auto
  qed
qed

lemma calculate_loop_consistent:
  "calculate_loop env tmo pr sg st n i coords m eff = (Inr m', eff') \<Longrightarrow>
   index_consistent m \<Longrightarrow> distinct (map coordToKey coords) \<Longrightarrow>
   dom (coordinateToElement m) \<inter> coordToKey ` set coords = {} \<Longrightarrow>
   index_consistent m'"
proof (induction coords arbitrary: i m eff)
  case Nil
  then show ?case by simp
next
  case (Cons c coords)
  obtain m1 msgs where s: "sample_and_add (documentAt env i) c m = (m1, msgs)"
    by (cases "sample_and_add (documentAt env i) c m") auto
  from Cons.prems(1) s have run:
    "calculate_loop env tmo pr sg st n (Suc i) coords m1
       (eff\<lparr>hitTests := hitTests eff @ [(coord_x c, coord_y c)],
            progressCalls := progressCalls eff @ progress_report pr i n,
            console := console eff @ msgs\<rparr>) = (Inr m', eff')"
    by (simp split: if_splits)
  have p4: "dom (coordinateToElement m) \<inter> insert (coordToKey c) (coordToKey ` set coords) = {}"
    using Cons.prems(4) by (simp only: list.set image_insert)
  have split: "x \<notin> B \<and> B \<inter> C = {}" if "B \<inter> insert x C = {}"
    for B C :: "string set" and x
    using that by blast
  have fresh: "coordToKey c \<notin> dom (coordinateToElement m)"
    and rest: "dom (coordinateToElement m) \<inter> coordToKey ` set coords = {}"
    using split [OF p4] by blast+
  from sample_and_add_consistent [OF Cons.prems(2) fresh s]
  have c1: "index_consistent m1"
    and d1: "dom (coordinateToElement m1) \<subseteq> insert (coordToKey c) (dom (coordinateToElement m))"
    by blast+
  have nk: "coordToKey c \<notin> coordToKey ` set coords" and dk: "distinct (map coordToKey coords)"
    using Cons.prems(3) by simp_all
  have sets: "A \<inter> C = {}" if "A \<subseteq> insert x B" "x \<notin> C" "B \<inter> C = {}"
    for A B C :: "string set" and x
    using that by blast
  have "dom (coordinateToElement m1) \<inter> coordToKey ` set coords = {}"
    by (rule sets [OF d1 nk rest])
  from Cons.IH [OF run c1 dk this] show ?case .
qed

lemma index_consistent_new: "index_consistent (new_HitRegionMap opt)"
  by (simp add: index_consistent_def new_HitRegionMap_def)

lemma grid_keys_distinct:
  assumes "generateCoordinateGrid W H r = Some g"
  shows "distinct (map coordToKey g)"
proof -
  from generateCoordinateGrid_returns [OF assms]
  have d: "distinct g" and n: "\<forall>c \<in> set g. \<exists>a b. c = \<lparr>coord_x = Num a, coord_y = Num b\<rparr>"
    by simp_all
  have "inj_on coordToKey (set g)"
  proof (rule inj_onI)
    fix c c' assume "c \<in> set g" "c' \<in> set g" and eq: "coordToKey c = coordToKey c'"
    then obtain a b a' b' where "c = \<lparr>coord_x = Num a, coord_y = Num b\<rparr>"
      "c' = \<lparr>coord_x = Num a', coord_y = Num b'\<rparr>"
      using n by blast
    then show "c = c'" using coordToKey_inj_Num [of a b a' b'] eq by simp
  qed
  then show ?thesis using d by (simp add: distinct_map)
qed

text \<open>
  C1. Index consistency: when a call of \<open>calculate\<close> completes normally, the two views of
  the map it returns mirror one relation: every key mapped to an element \<open>e\<close> by
  \<open>coordinateToElement\<close> is a member of \<open>elementToCoordinates e\<close>, and every key in
  \<open>elementToCoordinates e\<close> is mapped to \<open>e\<close> by \<open>coordinateToElement\<close>. The grid points of
  a pass have pairwise different keys, so each key is inserted at most once.
\<close>

theorem calculate_index_consistent:
  assumes "calculate env resolution options = Some (Inr m, eff)"
  shows "(\<forall>k e. coordinateToElement m k = Some e \<longrightarrow>
               (\<exists>ks. elementToCoordinates m e = Some ks \<and> k \<in> set ks)) \<and>
         (\<forall>e ks k. elementToCoordinates m e = Some ks \<and> k \<in> set ks \<longrightarrow>
               coordinateToElement m k = Some e) \<and>
         index_consistent m"
proof -
  let ?r = "case resolution of None \<Rightarrow> 10 | Some r \<Rightarrow> r"
  let ?t = "effective_timeout options"
  from assms obtain g where
    g: "generateCoordinateGrid (innerWidth env) (innerHeight env) ?r = Some g"
    by (cases "generateCoordinateGrid (innerWidth env) (innerHeight env) ?r")
       (simp_all add: calculate_def Let_def)
  obtain res eff0 where
    l: "calculate_loop env ?t (onProgress options) (signal options) (now env 0) (length g) 0 g
          (new_HitRegionMap None) \<lparr>hitTests = [], progressCalls = [], console = []\<rparr> = (res, eff0)"
    by (cases "calculate_loop env ?t (onProgress options) (signal options) (now env 0) (length g) 0 g
          (new_HitRegionMap None) \<lparr>hitTests = [], progressCalls = [], console = []\<rparr>") auto
  have "res = Inr m"
    using assms g l by (cases res) (simp_all add: calculate_def Let_def)
  with l have l': "calculate_loop env ?t (onProgress options) (signal options) (now env 0) (length g) 0 g
          (new_HitRegionMap None) \<lparr>hitTests = [], progressCalls = [], console = []\<rparr> = (Inr m, eff0)"
    by simp
  have e: "dom (coordinateToElement (new_HitRegionMap None :: 'a hit_region_map))
             \<inter> coordToKey ` set g = {}"
    by (simp add: new_HitRegionMap_def)
  have "index_consistent m"
    by (rule calculate_loop_consistent [OF l' index_consistent_new grid_keys_distinct [OF g] e])
  then show ?thesis unfolding index_consistent_def by simp
qed


theorem calculate_index_consistent_witness:
  "\<exists>m eff. calculate (page_env 100 100) (Some 50)
              \<lparr>timeout = None, onProgress = False, signal = None\<rparr> = Some (Inr m, eff) \<and>
           coordinateToElement m ''50,0'' = Some 3 \<and>
           (\<exists>ks. elementToCoordinates m 3 = Some ks \<and> ''50,0'' \<in> set ks) \<and>
           elementToCoordinates m 3 = Some [''0,0'', ''50,0''] \<and>
           coordinateToElement m ''0,0'' = Some 3 \<and>
           getElement m (Some (createCoordinate (Num 0) (Num 50))) = None"
proof -
  let ?run = "calculate (page_env 100 100) (Some 50)
                \<lparr>timeout = None, onProgress = False, signal = None\<rparr>"
  have ev: "case ?run of
              Some (Inr m, eff) \<Rightarrow>
                coordinateToElement m ''50,0'' = Some 3 \<and>
                elementToCoordinates m 3 = Some [''0,0'', ''50,0''] \<and>
                getElement m (Some (createCoordinate (Num 0) (Num 50))) = None
            | _ \<Rightarrow> False"
    by code_simp
  then obtain m eff where r: "?run = Some (Inr m, eff)"
    by (auto split: option.splits sum.splits prod.splits)
  from ev r have c: "coordinateToElement m ''50,0'' = Some 3"
    and e: "elementToCoordinates m 3 = Some [''0,0'', ''50,0'']"
    and n: "getElement m (Some (createCoordinate (Num 0) (Num 50))) = None"
    by simp_all
  note T = calculate_index_consistent [OF r]
  from T c have fwd: "\<exists>ks. elementToCoordinates m 3 = Some ks \<and> ''50,0'' \<in> set ks"
    by blast
  have "''0,0'' \<in> set [''0,0'', ''50,0'']" by simp
  with T e have bwd: "coordinateToElement m ''0,0'' = Some 3" by blast
  from r c fwd e bwd n show ?thesis by blast
qed

section \<open>The abort path and progress reports of a pass\<close>

lemma calculate_loop_completes:
  "(\<forall>k < length coords. \<not> cancelled_at sg (i + k) \<and> \<not> timed_out_at env st tmo (i + k)) \<Longrightarrow>
   \<exists>m' eff'. calculate_loop env tmo pr sg st n i coords m eff = (Inr m', eff') \<and>
             hitTests eff' = hitTests eff @ map (\<lambda>c. (coord_x c, coord_y c)) coords"
proof (induction coords arbitrary: i m eff)
  case Nil
  then show ?case by simp
next
  case (Cons c coords)
  have here: "\<not> cancelled_at sg i" "\<not> timed_out_at env st tmo i"
    using Cons.prems [rule_format, of 0] by simp_all
  have later: "\<forall>k < length coords. \<not> cancelled_at sg (Suc i + k) \<and> \<not> timed_out_at env st tmo (Suc i + k)"
    using Cons.prems [rule_format, of "Suc k" for k] by simp
  obtain m1 msgs where s: "sample_and_add (documentAt env i) c m = (m1, msgs)"
    by (cases "sample_and_add (documentAt env i) c m") auto
  define eff1 where "eff1 = eff\<lparr>hitTests := hitTests eff @ [(coord_x c, coord_y c)],
       progressCalls := progressCalls eff @ progress_report pr i n,
       console := console eff @ msgs\<rparr>"
  from Cons.IH [OF later, where m = m1 and eff = eff1]
  obtain m' eff' where r: "calculate_loop env tmo pr sg st n (Suc i) coords m1 eff1 = (Inr m', eff')"
    and h: "hitTests eff' = hitTests eff1 @ map (\<lambda>c. (coord_x c, coord_y c)) coords"
    by blast
  have step: "calculate_loop env tmo pr sg st n i (c # coords) m eff =
                calculate_loop env tmo pr sg st n (Suc i) coords m1 eff1"
    using here s by (simp add: eff1_def)
  have "hitTests eff1 = hitTests eff @ [(coord_x c, coord_y c)]" by (simp add: eff1_def)
  with h have h2: "hitTests eff' = hitTests eff @ map (\<lambda>c. (coord_x c, coord_y c)) (c # coords)"
    by simp
  have eq: "calculate_loop env tmo pr sg st n i (c # coords) m eff = (Inr m', eff')"
    unfolding step by (rule r)
  show ?case by (rule exI [of _ m'], rule exI [of _ eff']) (simp only: eq h2)
qed

lemma calculate_loop_aborts:
  "j < length coords \<Longrightarrow>
   (\<forall>k < j. \<not> cancelled_at sg (i + k) \<and> \<not> timed_out_at env st tmo (i + k)) \<Longrightarrow>
   cancelled_at sg (i + j) \<or> timed_out_at env st tmo (i + j) \<Longrightarrow>
   \<exists>eff'. calculate_loop env tmo pr sg st n i coords m eff =
            (Inl (if cancelled_at sg (i + j) then CalculationCancelled else CalculationTimeout tmo),
             eff') \<and>
          hitTests eff' = hitTests eff @ map (\<lambda>c. (coord_x c, coord_y c)) (take j coords)"
proof (induction coords arbitrary: i j m eff)
  case Nil
  then show ?case by simp
next
  case (Cons c coords)
  show ?case
  proof (cases j)
    case 0
    then show ?thesis using Cons.prems(3) by auto
  next
    case (Suc j')
    have here: "\<not> cancelled_at sg i" "\<not> timed_out_at env st tmo i"
      using Cons.prems(2) [rule_format, of 0] Suc by simp_all
    have later: "\<forall>k < j'. \<not> cancelled_at sg (Suc i + k) \<and> \<not> timed_out_at env st tmo (Suc i + k)"
      using Cons.prems(2) [rule_format, of "Suc k" for k] Suc by simp
    have at: "cancelled_at sg (Suc i + j') \<or> timed_out_at env st tmo (Suc i + j')"
      using Cons.prems(3) Suc by simp
    have len: "j' < length coords" using Cons.prems(1) Suc by simp
    obtain m1 msgs where s: "sample_and_add (documentAt env i) c m = (m1, msgs)"
      by (cases "sample_and_add (documentAt env i) c m") auto
    define eff1 where "eff1 = eff\<lparr>hitTests := hitTests eff @ [(coord_x c, coord_y c)],
       progressCalls := progressCalls eff @ progress_report pr i n,
       console := console eff @ msgs\<rparr>"
    from Cons.IH [OF len later at, where m = m1 and eff = eff1]
    obtain eff' where r: "calculate_loop env tmo pr sg st n (Suc i) coords m1 eff1 =
            (Inl (if cancelled_at sg (Suc i + j') then CalculationCancelled
                  else CalculationTimeout tmo), eff')"
      and h: "hitTests eff' = hitTests eff1 @ map (\<lambda>c. (coord_x c, coord_y c)) (take j' coords)"
      by blast
    have step: "calculate_loop env tmo pr sg st n i (c # coords) m eff =
                  calculate_loop env tmo pr sg st n (Suc i) coords m1 eff1"
      using here s by (simp add: eff1_def)
    have "hitTests eff1 = hitTests eff @ [(coord_x c, coord_y c)]" by (simp add: eff1_def)
    with h have h': "hitTests eff' =
                  hitTests eff @ map (\<lambda>c. (coord_x c, coord_y c)) (take j (c # coords))"
      using Suc by simp
    have "Suc i + j' = i + j" using Suc by simp
    with step r h' show ?thesis by auto
  qed
qed

text \<open>
  C2, as stated, fails in two places. First, the default of the timeout option: in a pass
  started without a timeout option whose first elapsed-time reading is 6000 ms, less than
  10 seconds, \<open>calculate\<close> aborts with the timeout outcome, for a timeout of 5000 ms.
  Second, the previously built Index: when \<open>handlePageChanges\<close> starts a pass that is
  cancelled, the Index built before, which held a coordinate of element 3, holds no
  coordinate afterwards.
\<close>

theorem calculate_abort_counterexample:
  "(case calculate ((page_env 100 100)\<lparr>now := \<lambda>k. of_nat k * 6000\<rparr>) (Some 50)
           \<lparr>timeout = None, onProgress = False, signal = None\<rparr> of
      Some (Inl e, eff) \<Rightarrow> e = CalculationTimeout 5000
    | _ \<Rightarrow> False) \<and>
   \<not> ((6000 :: rat) > 10000) \<and>
   getCoordinates page_index (Some 3) = [Some (createCoordinate (Num 0) (Num 0))] \<and>
   getElement page_index (Some (createCoordinate (Num 0) (Num 0))) = Some 3 \<and>
   (case handlePageChanges (page_env 100 100) (\<lambda>i. True)
           (Some \<lparr>samplingResolution = 50, autoRecalculate = True\<rparr>) (Some page_index) of
      Some (Some m) \<Rightarrow>
        getCoordinates m (Some 3) = [] \<and>
        getElement m (Some (createCoordinate (Num 0) (Num 0))) = None
    | _ \<Rightarrow> False)"
  by code_simp

text \<open>
  C2, amended. Before each sample the pass checks the cancellation signal, aborting with
  the cancelled outcome, and then the elapsed time against the timeout option, aborting
  with the timeout outcome; the timeout defaults to 5000 ms in \<open>calculate\<close>, and the
  caller \<open>calculateHitRegions\<close> passes 10 seconds. So, for a grid \<open>g\<close>: the call returns;
  if no check fails it returns a map and has made the hit test at every grid point; if the
  first failing check is at iteration \<open>j\<close> it returns no map but the cancelled outcome
  when the signal is aborted there, and the timeout outcome otherwise, and the hit tests
  it has made are those at the first \<open>j\<close> grid points and no other. An aborted pass leaves
  the Index held when it started as it was then: \<open>calculateHitRegions\<close> passes the error
  on and still holds the previously built Index, unchanged; \<open>handlePageChanges\<close>, which
  clears that Index before it starts the pass, holds the cleared Index.
\<close>

theorem calculate_abort_path:
  assumes "generateCoordinateGrid (innerWidth env) (innerHeight env)
             (case resolution of None \<Rightarrow> 10 | Some r \<Rightarrow> r) = Some g"
  shows "effective_timeout (options\<lparr>timeout := None\<rparr>) = 5000 \<and>
         (\<exists>res eff. calculate env resolution options = Some (res, eff) \<and>
            ((\<forall>i < length g. \<not> cancelled_at (signal options) i \<and>
                              \<not> timed_out_at env (now env 0) (effective_timeout options) i)
               \<longrightarrow> (\<exists>m. res = Inr m) \<and>
                   hitTests eff = map (\<lambda>c. (coord_x c, coord_y c)) g) \<and>
            (\<forall>j < length g.
               (\<forall>i < j. \<not> cancelled_at (signal options) i \<and>
                        \<not> timed_out_at env (now env 0) (effective_timeout options) i) \<and>
               cancelled_at (signal options) j
               \<longrightarrow> res = Inl CalculationCancelled \<and>
                   hitTests eff = map (\<lambda>c. (coord_x c, coord_y c)) (take j g)) \<and>
            (\<forall>j < length g.
               (\<forall>i < j. \<not> cancelled_at (signal options) i \<and>
                        \<not> timed_out_at env (now env 0) (effective_timeout options) i) \<and>
               \<not> cancelled_at (signal options) j \<and>
               timed_out_at env (now env 0) (effective_timeout options) j
               \<longrightarrow> res = Inl (CalculationTimeout (effective_timeout options)) \<and>
                   hitTests eff = map (\<lambda>c. (coord_x c, coord_y c)) (take j g))) \<and>
         (\<forall>e eff. calculate (env\<lparr>now := \<lambda>k. now env (Suc k)\<rparr>) (Some sr)
                     \<lparr>timeout = Some 10000, onProgress = True, signal = Some aborted\<rparr>
                   = Some (Inl e, eff)
            \<longrightarrow> effective_timeout \<lparr>timeout = Some 10000, onProgress = True, signal = Some aborted\<rparr>
                  = 10000 \<and>
                calculateHitRegions env aborted sr previous = Some (Inl e, previous, eff) \<and>
                handlePageChanges env aborted
                    (Some \<lparr>samplingResolution = sr, autoRecalculate = True\<rparr>) previous
                  = Some (map_option clear previous))"
proof -
  let ?t = "effective_timeout options"
  let ?pt = "\<lambda>c. (coord_x c, coord_y c)"
  let ?e0 = "\<lparr>hitTests = [], progressCalls = [], console = []\<rparr>"
  let ?loop = "calculate_loop env ?t (onProgress options) (signal options) (now env 0)
                 (length g) 0 g (new_HitRegionMap None) ?e0"
  obtain lres leff where l: "?loop = (lres, leff)" by (cases ?loop) auto
  have "\<exists>eff. calculate env resolution options = Some (lres, eff) \<and> hitTests eff = hitTests leff"
  proof (cases lres)
    case (Inl e)
    have "calculate env resolution options = Some (Inl e, leff)"
      unfolding calculate_def Let_def assms option.case l [unfolded Inl] by simp
    then show ?thesis using Inl by blast
  next
    case (Inr m)
    have "\<exists>eff. calculate env resolution options = Some (Inr m, eff) \<and> hitTests eff = hitTests leff"
      unfolding calculate_def Let_def assms option.case l [unfolded Inr] by simp
    then show ?thesis using Inr by blast
  qed
  then obtain eff where c: "calculate env resolution options = Some (lres, eff)"
    and ht: "hitTests eff = hitTests leff" by blast
  define res where "res = lres"
  have compl: "(\<exists>m. res = Inr m) \<and> hitTests eff = map ?pt g"
    if "\<forall>i < length g. \<not> cancelled_at (signal options) i \<and> \<not> timed_out_at env (now env 0) ?t i"
  proof -
    from that have "\<forall>k < length g. \<not> cancelled_at (signal options) (0 + k) \<and>
                      \<not> timed_out_at env (now env 0) ?t (0 + k)" by simp
    from calculate_loop_completes [OF this, where pr = "onProgress options" and n = "length g"
        and m = "new_HitRegionMap None" and eff = ?e0] l
    show ?thesis unfolding res_def ht by simp
  qed
  have abort: "res = Inl (if cancelled_at (signal options) j then CalculationCancelled
                          else CalculationTimeout ?t) \<and>
               hitTests eff = map ?pt (take j g)"
    if "j < length g"
      "\<forall>i < j. \<not> cancelled_at (signal options) i \<and> \<not> timed_out_at env (now env 0) ?t i"
      "cancelled_at (signal options) j \<or> timed_out_at env (now env 0) ?t j" for j
  proof -
    from that have "\<forall>k < j. \<not> cancelled_at (signal options) (0 + k) \<and>
                      \<not> timed_out_at env (now env 0) ?t (0 + k)"
      and "cancelled_at (signal options) (0 + j) \<or> timed_out_at env (now env 0) ?t (0 + j)"
      by simp_all
    from calculate_loop_aborts [OF that(1) this, where pr = "onProgress options" and n = "length g"
        and m = "new_HitRegionMap None" and eff = ?e0] l
    show ?thesis unfolding res_def ht by simp
  qed
  have dflt: "effective_timeout (options\<lparr>timeout := None\<rparr>) = 5000"
    by (simp add: effective_timeout_def)
  have caller: "effective_timeout \<lparr>timeout = Some 10000, onProgress = True, signal = Some aborted\<rparr>
                  = 10000 \<and>
                calculateHitRegions env aborted sr previous = Some (Inl e, previous, eff') \<and>
                handlePageChanges env aborted
                    (Some \<lparr>samplingResolution = sr, autoRecalculate = True\<rparr>) previous
                  = Some (map_option clear previous)"
    if run: "calculate (env\<lparr>now := \<lambda>k. now env (Suc k)\<rparr>) (Some sr)
          \<lparr>timeout = Some 10000, onProgress = True, signal = Some aborted\<rparr> = Some (Inl e, eff')"
    for e eff'
  proof -
    have a: "calculateHitRegions env aborted sr p = Some (Inl e, p, eff')" for p
      using run by (simp add: calculateHitRegions_def)
    have b: "handlePageChanges env aborted
                    (Some \<lparr>samplingResolution = sr, autoRecalculate = True\<rparr>) previous
                  = Some (map_option clear previous)"
      by (simp add: handlePageChanges_def Let_def a)
    show ?thesis using a b by (simp add: effective_timeout_def)
  qed
  have p1: "(\<forall>i < length g. \<not> cancelled_at (signal options) i \<and>
                              \<not> timed_out_at env (now env 0) ?t i)
               \<longrightarrow> (\<exists>m. res = Inr m) \<and> hitTests eff = map ?pt g"
    using compl by blast
  have p2: "\<forall>j < length g.
               (\<forall>i < j. \<not> cancelled_at (signal options) i \<and>
                        \<not> timed_out_at env (now env 0) ?t i) \<and>
               cancelled_at (signal options) j
               \<longrightarrow> res = Inl CalculationCancelled \<and> hitTests eff = map ?pt (take j g)"
    using abort by simp
  have p3: "\<forall>j < length g.
               (\<forall>i < j. \<not> cancelled_at (signal options) i \<and>
                        \<not> timed_out_at env (now env 0) ?t i) \<and>
               \<not> cancelled_at (signal options) j \<and>
               timed_out_at env (now env 0) ?t j
               \<longrightarrow> res = Inl (CalculationTimeout ?t) \<and> hitTests eff = map ?pt (take j g)"
    using abort by simp
  have mid: "\<exists>res eff. calculate env resolution options = Some (res, eff) \<and>
            ((\<forall>i < length g. \<not> cancelled_at (signal options) i \<and>
                              \<not> timed_out_at env (now env 0) ?t i)
               \<longrightarrow> (\<exists>m. res = Inr m) \<and> hitTests eff = map ?pt g) \<and>
            (\<forall>j < length g.
               (\<forall>i < j. \<not> cancelled_at (signal options) i \<and>
                        \<not> timed_out_at env (now env 0) ?t i) \<and>
               cancelled_at (signal options) j
               \<longrightarrow> res = Inl CalculationCancelled \<and> hitTests eff = map ?pt (take j g)) \<and>
            (\<forall>j < length g.
               (\<forall>i < j. \<not> cancelled_at (signal options) i \<and>
                        \<not> timed_out_at env (now env 0) ?t i) \<and>
               \<not> cancelled_at (signal options) j \<and>
               timed_out_at env (now env 0) ?t j
               \<longrightarrow> res = Inl (CalculationTimeout ?t) \<and> hitTests eff = map ?pt (take j g))"
    by (rule exI [of _ res], rule exI [of _ eff], intro conjI c [folded res_def] p1 p2 p3)
  have last: "\<forall>e eff. calculate (env\<lparr>now := \<lambda>k. now env (Suc k)\<rparr>) (Some sr)
                     \<lparr>timeout = Some 10000, onProgress = True, signal = Some aborted\<rparr>
                   = Some (Inl e, eff)
            \<longrightarrow> effective_timeout \<lparr>timeout = Some 10000, onProgress = True, signal = Some aborted\<rparr>
                  = 10000 \<and>
                calculateHitRegions env aborted sr previous = Some (Inl e, previous, eff) \<and>
                handlePageChanges env aborted
                    (Some \<lparr>samplingResolution = sr, autoRecalculate = True\<rparr>) previous
                  = Some (map_option clear previous)"
    using caller by blast
  from dflt mid last show ?thesis by (intro conjI)
qed

lemma grid_100_50:
  "generateCoordinateGrid (innerWidth (page_env 100 100)) (innerHeight (page_env 100 100))
     (case Some 50 of None \<Rightarrow> 10 | Some r \<Rightarrow> r) =
     Some [createCoordinate (Num 0) (Num 0), createCoordinate (Num 0) (Num 50),
           createCoordinate (Num 50) (Num 0), createCoordinate (Num 50) (Num 50)]"
  by code_simp

theorem calculate_abort_path_witness:
  "(\<exists>eff. calculate (page_env 100 100) (Some 50)
            \<lparr>timeout = None, onProgress = False, signal = Some (\<lambda>i. 2 \<le> i)\<rparr>
          = Some (Inl CalculationCancelled, eff) \<and>
          hitTests eff = [(Num 0, Num 0), (Num 0, Num 50)]) \<and>
   (\<exists>eff. calculate (page_env 100 100) (Some 50)
            \<lparr>timeout = Some 2, onProgress = False, signal = None\<rparr>
          = Some (Inl (CalculationTimeout 2), eff) \<and>
          hitTests eff = [(Num 0, Num 0), (Num 0, Num 50)]) \<and>
   (\<exists>m eff. calculate (page_env 100 100) (Some 50)
            \<lparr>timeout = None, onProgress = False, signal = None\<rparr>
          = Some (Inr m, eff) \<and>
          hitTests eff = [(Num 0, Num 0), (Num 0, Num 50), (Num 50, Num 0), (Num 50, Num 50)]) \<and>
   getCoordinates page_index (Some 3) = [Some (createCoordinate (Num 0) (Num 0))] \<and>
   (\<exists>eff. calculateHitRegions (page_env 100 100) (\<lambda>i. 1 \<le> i) 50 (Some page_index)
          = Some (Inl CalculationCancelled, Some page_index, eff)) \<and>
   handlePageChanges (page_env 100 100) (\<lambda>i. 1 \<le> i)
       (Some \<lparr>samplingResolution = 50, autoRecalculate = True\<rparr>) (Some page_index)
     = Some (Some (clear page_index))"
proof -
  let ?E = "page_env 100 100"
  let ?G = "[createCoordinate (Num 0) (Num 0), createCoordinate (Num 0) (Num 50),
             createCoordinate (Num 50) (Num 0), createCoordinate (Num 50) (Num 50)]"
  let ?pt = "\<lambda>c. (coord_x c, coord_y c)"
  let ?O1 = "\<lparr>timeout = None, onProgress = False, signal = Some (\<lambda>i. 2 \<le> i)\<rparr>"
  let ?O2 = "\<lparr>timeout = Some 2, onProgress = False, signal = None\<rparr>"
  let ?O3 = "\<lparr>timeout = None, onProgress = False, signal = None\<rparr>"
  let ?O4 = "\<lparr>timeout = Some 10000, onProgress = True, signal = Some (\<lambda>i. 1 \<le> i)\<rparr>"
  let ?E' = "?E\<lparr>now := \<lambda>k. now ?E (Suc k)\<rparr>"
  have two: "(2::nat) < length ?G" and one: "(1::nat) < length ?G" by simp_all
  have tk2: "map ?pt (take 2 ?G) = [(Num 0, Num 0), (Num 0, Num 50)]"
    and tk4: "map ?pt ?G = [(Num 0, Num 0), (Num 0, Num 50), (Num 50, Num 0), (Num 50, Num 50)]"
    by (simp_all add: createCoordinate_def numeral_2_eq_2)
  have g': "generateCoordinateGrid (innerWidth ?E') (innerHeight ?E')
              (case Some 50 of None \<Rightarrow> 10 | Some r \<Rightarrow> r) = Some ?G"
    using grid_100_50 by simp
  have a: "\<exists>eff. calculate ?E (Some 50) ?O1 = Some (Inl CalculationCancelled, eff) \<and>
                 hitTests eff = [(Num 0, Num 0), (Num 0, Num 50)]"
  proof -
    have h: "(\<forall>i < 2. \<not> cancelled_at (signal ?O1) i \<and>
                      \<not> timed_out_at ?E (now ?E 0) (effective_timeout ?O1) i) \<and>
             cancelled_at (signal ?O1) 2"
      by (auto simp: cancelled_at_def timed_out_at_def effective_timeout_def page_env_def)
    note T = calculate_abort_path [OF grid_100_50, where options = ?O1]
    from T [THEN conjunct2, THEN conjunct1]
    obtain res eff where r: "calculate ?E (Some 50) ?O1 = Some (res, eff)"
      and canc: "\<forall>j < length ?G.
               (\<forall>i < j. \<not> cancelled_at (signal ?O1) i \<and>
                        \<not> timed_out_at ?E (now ?E 0) (effective_timeout ?O1) i) \<and>
               cancelled_at (signal ?O1) j
               \<longrightarrow> res = Inl CalculationCancelled \<and> hitTests eff = map ?pt (take j ?G)"
      by (elim exE conjE) (rule that; assumption)
    from canc [rule_format, OF two h] r show ?thesis unfolding tk2 by blast
  qed
  have b: "\<exists>eff. calculate ?E (Some 50) ?O2 = Some (Inl (CalculationTimeout 2), eff) \<and>
                 hitTests eff = [(Num 0, Num 0), (Num 0, Num 50)]"
  proof -
    have h: "(\<forall>i < 2. \<not> cancelled_at (signal ?O2) i \<and>
                      \<not> timed_out_at ?E (now ?E 0) (effective_timeout ?O2) i) \<and>
             \<not> cancelled_at (signal ?O2) 2 \<and>
             timed_out_at ?E (now ?E 0) (effective_timeout ?O2) 2"
      by (auto simp: cancelled_at_def timed_out_at_def effective_timeout_def page_env_def
            less_Suc_eq numeral_2_eq_2)
    have t: "effective_timeout ?O2 = 2" by (simp add: effective_timeout_def)
    note T = calculate_abort_path [OF grid_100_50, where options = ?O2]
    from T [THEN conjunct2, THEN conjunct1]
    obtain res eff where r: "calculate ?E (Some 50) ?O2 = Some (res, eff)"
      and tout: "\<forall>j < length ?G.
               (\<forall>i < j. \<not> cancelled_at (signal ?O2) i \<and>
                        \<not> timed_out_at ?E (now ?E 0) (effective_timeout ?O2) i) \<and>
               \<not> cancelled_at (signal ?O2) j \<and>
               timed_out_at ?E (now ?E 0) (effective_timeout ?O2) j
               \<longrightarrow> res = Inl (CalculationTimeout (effective_timeout ?O2)) \<and>
                   hitTests eff = map ?pt (take j ?G)"
      by (elim exE conjE) (rule that; assumption)
    from tout [rule_format, OF two h] r show ?thesis unfolding tk2 t by blast
  qed
  have c: "\<exists>m eff. calculate ?E (Some 50) ?O3 = Some (Inr m, eff) \<and>
             hitTests eff = [(Num 0, Num 0), (Num 0, Num 50), (Num 50, Num 0), (Num 50, Num 50)]"
  proof -
    have h: "\<forall>i < length ?G. \<not> cancelled_at (signal ?O3) i \<and>
                      \<not> timed_out_at ?E (now ?E 0) (effective_timeout ?O3) i"
      by (auto simp: cancelled_at_def timed_out_at_def effective_timeout_def page_env_def)
    note T = calculate_abort_path [OF grid_100_50, where options = ?O3]
    from T [THEN conjunct2, THEN conjunct1]
    obtain res eff where r: "calculate ?E (Some 50) ?O3 = Some (res, eff)"
      and ok: "(\<forall>i < length ?G. \<not> cancelled_at (signal ?O3) i \<and>
                      \<not> timed_out_at ?E (now ?E 0) (effective_timeout ?O3) i)
               \<longrightarrow> (\<exists>m. res = Inr m) \<and> hitTests eff = map ?pt ?G"
      by (elim exE conjE) (rule that; assumption)
    from ok [THEN mp, OF h] r show ?thesis unfolding tk4 by blast
  qed
  have idx: "getCoordinates page_index (Some 3) = [Some (createCoordinate (Num 0) (Num 0))]"
    by code_simp
  have d: "(\<exists>eff. calculateHitRegions ?E (\<lambda>i. 1 \<le> i) 50 (Some page_index)
              = Some (Inl CalculationCancelled, Some page_index, eff)) \<and>
           handlePageChanges ?E (\<lambda>i. 1 \<le> i)
               (Some \<lparr>samplingResolution = 50, autoRecalculate = True\<rparr>) (Some page_index)
             = Some (Some (clear page_index))"
  proof -
    have h: "(\<forall>i < 1. \<not> cancelled_at (signal ?O4) i \<and>
                      \<not> timed_out_at ?E' (now ?E' 0) (effective_timeout ?O4) i) \<and>
             cancelled_at (signal ?O4) 1"
      by (auto simp: cancelled_at_def timed_out_at_def effective_timeout_def page_env_def)
    note T = calculate_abort_path [OF g', where options = ?O4]
    from T [THEN conjunct2, THEN conjunct1]
    obtain res eff where r: "calculate ?E' (Some 50) ?O4 = Some (res, eff)"
      and canc: "\<forall>j < length ?G.
               (\<forall>i < j. \<not> cancelled_at (signal ?O4) i \<and>
                        \<not> timed_out_at ?E' (now ?E' 0) (effective_timeout ?O4) i) \<and>
               cancelled_at (signal ?O4) j
               \<longrightarrow> res = Inl CalculationCancelled \<and> hitTests eff = map ?pt (take j ?G)"
      by (elim exE conjE) (rule that; assumption)
    from canc [rule_format, OF one h] have "res = Inl CalculationCancelled" by (rule conjunct1)
    with r have run: "calculate ?E' (Some 50) ?O4 = Some (Inl CalculationCancelled, eff)" by simp
    note T2 = calculate_abort_path [OF grid_100_50, where options = ?O3 and sr = 50
        and aborted = "\<lambda>i. 1 \<le> i" and previous = "Some page_index"]
    from T2 [THEN conjunct2, THEN conjunct2, rule_format, OF run]
    have "calculateHitRegions ?E (\<lambda>i. 1 \<le> i) 50 (Some page_index)
            = Some (Inl CalculationCancelled, Some page_index, eff)"
      and "handlePageChanges ?E (\<lambda>i. 1 \<le> i)
               (Some \<lparr>samplingResolution = 50, autoRecalculate = True\<rparr>) (Some page_index)
             = Some (map_option clear (Some page_index))"
      by blast+
    then show ?thesis by auto
  qed
  from a b c idx d show ?thesis by (intro conjI) blast+
qed

text \<open>
  C8. Progress reporting, evaluated with a progress callback on three grids of one column
  (viewport height 1, resolution 1). On a grid of 5 points the pass completes and the
  callback is never invoked, because the remainder by \<open>floor(5 / 10) = 0\<close> is never 0. On
  a grid of 11 points it is invoked in every iteration, 11 times, at percentages that are
  not multiples of 10. On a grid of 10 points it is invoked exactly at each tenth.
\<close>

theorem progress_reports_evaluated:
  "(case calculate (page_env 5 1) (Some 1) \<lparr>timeout = None, onProgress = True, signal = None\<rparr> of
      Some (Inr m, eff) \<Rightarrow> progressCalls eff = []
    | _ \<Rightarrow> False) \<and>
   (case calculate (page_env 11 1) (Some 1) \<lparr>timeout = None, onProgress = True, signal = None\<rparr> of
      Some (Inr m, eff) \<Rightarrow>
        map (\<lambda>(p, i, n). (i, n)) (progressCalls eff) =
          [(0, 11), (1, 11), (2, 11), (3, 11), (4, 11), (5, 11), (6, 11), (7, 11),
           (8, 11), (9, 11), (10, 11)] \<and>
        map fst (take 2 (progressCalls eff)) = [0, 100 / 11]
    | _ \<Rightarrow> False) \<and>
   (case calculate (page_env 10 1) (Some 1) \<lparr>timeout = None, onProgress = True, signal = None\<rparr> of
      Some (Inr m, eff) \<Rightarrow>
        progressCalls eff =
          [(0, 0, 10), (10, 1, 10), (20, 2, 10), (30, 3, 10), (40, 4, 10), (50, 5, 10),
           (60, 6, 10), (70, 7, 10), (80, 8, 10), (90, 9, 10)]
    | _ \<Rightarrow> False)"
  by code_simp

section \<open>Properties of the mutation relevance filter\<close>




end
